theory Spec2Isabelle
  imports Main
begin

section \<open>The runtime the two classes call\<close>

text \<open>
  \<^verbatim>\<open>Dir.mjs\<close> and \<^verbatim>\<open>File.mjs\<close> are written against three parts of Node.js: the
  promise API of the file system (\<^verbatim>\<open>fs/promises\<close>), the \<^verbatim>\<open>path\<close> module and
  \<^verbatim>\<open>String.prototype.replace\<close> with a global \<^verbatim>\<open>RegExp\<close>.  None of them is code of
  the repository, so the model takes them as a parameter: a record of functions over an
  arbitrary file-system state \<open>'s\<close>.  A call that rejects gives the error code, a call
  that resolves gives its value; a call that writes also gives the next state.  Every
  \<^verbatim>\<open>await\<close> of the source is sequential, so a method is a function from the state before
  to its result and the state after.
\<close>

datatype errno = ENOENT | EEXIST | ENOTDIR | EISDIR | EACCES | EINVAL | ENOTEMPTY

datatype exn =
    SystemError errno
  | SyntaxError string
  | Error string
  | NotModelled string

record 's runtime =
  fs_access :: "'s \<Rightarrow> string \<Rightarrow> errno option"
  fs_mkdir :: "'s \<Rightarrow> string \<Rightarrow> errno option \<times> 's"
  fs_rename :: "'s \<Rightarrow> string \<Rightarrow> string \<Rightarrow> errno option \<times> 's"
  fs_rm_recursive :: "'s \<Rightarrow> string \<Rightarrow> errno option \<times> 's"
  fs_readdir :: "'s \<Rightarrow> string \<Rightarrow> errno + string list"
  fs_stat_isDirectory :: "'s \<Rightarrow> string \<Rightarrow> errno + bool"
  fs_readFile :: "'s \<Rightarrow> string \<Rightarrow> errno + string"
  fs_writeFile :: "'s \<Rightarrow> string \<Rightarrow> string \<Rightarrow> errno option \<times> 's"
  fs_unlink :: "'s \<Rightarrow> string \<Rightarrow> errno option \<times> 's"
  path_basename :: "string \<Rightarrow> string"
  path_basename_suffix :: "string \<Rightarrow> string \<Rightarrow> string"
  path_parse_name :: "string \<Rightarrow> string"
  path_extname :: "string \<Rightarrow> string"
  regexp_replace_g :: "string \<Rightarrow> string \<Rightarrow> string \<Rightarrow> exn + string"

text \<open>
  \<open>fs_access rt s p = None\<close> reads: in state \<open>s\<close> the promise \<^verbatim>\<open>access(p)\<close> resolves;
  \<open>Some e\<close>: it rejects with \<open>e\<close>.  \<open>regexp_replace_g rt pattern subject replacement\<close>
  is \<^verbatim>\<open>subject.replace(new RegExp(pattern, 'g'), replacement)\<close>, \<open>Inl\<close> when the
  constructor throws.
\<close>

section \<open>Dir.mjs: the one-call methods\<close>

text \<open>
  Each of these is one \<^verbatim>\<open>try\<close> around one call, with a handler that returns
  \<^verbatim>\<open>false\<close>: the method returns in both branches and throws in none.
\<close>

definition Dir_exists :: "'s runtime \<Rightarrow> 's \<Rightarrow> string \<Rightarrow> bool" where
  "Dir_exists rt s dirName =
     (case fs_access rt s dirName of None \<Rightarrow> True | Some err \<Rightarrow> False)"

definition Dir_create :: "'s runtime \<Rightarrow> 's \<Rightarrow> string \<Rightarrow> bool \<times> 's" where
  "Dir_create rt s dirName =
     (case fs_mkdir rt s dirName of
        (None, s') \<Rightarrow> (True, s')
      | (Some err, s') \<Rightarrow> (False, s'))"

definition Dir_rename :: "'s runtime \<Rightarrow> 's \<Rightarrow> string \<Rightarrow> string \<Rightarrow> bool \<times> 's" where
  "Dir_rename rt s oldDir newDir =
     (case fs_rename rt s oldDir newDir of
        (None, s') \<Rightarrow> (True, s')
      | (Some err, s') \<Rightarrow> (False, s'))"


definition Dir_check :: "'s runtime \<Rightarrow> 's \<Rightarrow> string \<Rightarrow> bool" where
  "Dir_check rt s path =
     (case fs_stat_isDirectory rt s path of Inr isDirectory \<Rightarrow> isDirectory | Inl err \<Rightarrow> False)"

section \<open>Dir.lastName\<close>

text \<open>
  \<^verbatim>\<open>count\<close> is a JavaScript number.  Every value it takes is an integer; \<^verbatim>\<open>count++\<close>
  is exact up to \<open>2 ^ 53\<close> and leaves \<open>2 ^ 53\<close> where it is (the sum rounds back to it).
  The template \<^verbatim>\<open>${count}\<close> prints such an integer in decimal.
\<close>

definition count_incr :: "nat \<Rightarrow> nat" where
  "count_incr count = (if count = 2 ^ 53 then count else count + 1)"

definition digit_char :: "nat \<Rightarrow> char" where
  "digit_char d = char_of (48 + d)"

fun number_to_string :: "nat \<Rightarrow> string" where
  "number_to_string n =
     (if n < 10 then [digit_char n] else number_to_string (n div 10) @ [digit_char (n mod 10)])"

declare number_to_string.simps [simp del]

definition findName :: "string \<Rightarrow> string \<Rightarrow> nat \<Rightarrow> string" where
  "findName baseName extension count =
     (if count > 1
      then baseName @ ''-copy-'' @ number_to_string count @ extension
      else baseName @ ''-copy'' @ extension)"

text \<open>
  The \<^verbatim>\<open>do ... while (find)\<close> loop: \<^verbatim>\<open>find\<close> is only set to false on the line before
  the \<^verbatim>\<open>return\<close>, so the loop runs until it returns.  It need not: the result is an
  \<open>option\<close>, \<open>None\<close> when the loop runs forever.
\<close>

partial_function (option) lastName_loop ::
  "'s runtime \<Rightarrow> 's \<Rightarrow> string \<Rightarrow> string \<Rightarrow> nat \<Rightarrow> string option" where
  "lastName_loop rt s baseName extension count =
     (if \<not> Dir_exists rt s (findName baseName extension count)
      then Some (findName baseName extension count)
      else lastName_loop rt s baseName extension (count_incr count))"

declare lastName_loop.simps [code]

definition Dir_lastName :: "'s runtime \<Rightarrow> 's \<Rightarrow> string \<Rightarrow> string \<Rightarrow> string option" where
  "Dir_lastName rt s baseName extension = lastName_loop rt s baseName extension 0"

text \<open>The value of \<^verbatim>\<open>count\<close> at the \<open>k\<close>-th pass through the loop body, counted from 0.\<close>

definition attempt_count :: "nat \<Rightarrow> nat" where
  "attempt_count k = (count_incr ^^ k) 0"

text \<open>
  Two notions to state what \<^verbatim>\<open>lastName\<close> does against.  The first reads a decimal
  numeral back: together with \<open>is_digit\<close> it says what "the count in decimal" means.  The
  second is the suffix sequence as the specification lists it, \<^verbatim>\<open>-copy\<close>, \<^verbatim>\<open>-copy-2\<close>,
  \<^verbatim>\<open>-copy-3\<close>, \<open>\<dots>\<close>, numbered from 0.
\<close>

definition is_digit :: "char \<Rightarrow> bool" where
  "is_digit c = (c \<in> set ''0123456789'')"

definition digit_value :: "char \<Rightarrow> nat" where
  "digit_value c = of_char c - 48"

definition decimal_value :: "string \<Rightarrow> nat" where
  "decimal_value ds = foldl (\<lambda>acc c. 10 * acc + digit_value c) 0 ds"

definition copy_suffix :: "nat \<Rightarrow> string" where
  "copy_suffix i = (if i = 0 then ''-copy'' else ''-copy-'' @ number_to_string (i + 1))"

section \<open>File.mjs\<close>

text \<open>
  The result objects.  \<open>Read_ok\<close> is \<^verbatim>\<open>{read: true, name, content, extension,
  nameWithExtension}\<close> and \<open>Read_failed err\<close> is \<^verbatim>\<open>{read: false, content: err}\<close>; in the
  other four the flag is the property the source names (\<^verbatim>\<open>create\<close>, \<^verbatim>\<open>updated\<close>,
  \<^verbatim>\<open>deleted\<close>, \<^verbatim>\<open>renamed\<close>) and the error is absent when the flag is true.
\<close>

datatype read_result =
    Read_ok (read_name: string) (read_content: string) (read_extension: string)
      (read_nameWithExtension: string)
  | Read_failed exn

datatype create_result = Create_result (create: bool) (create_error: "exn option")
datatype update_result = Update_result (updated: bool) (update_error: "exn option")
datatype delete_result = Delete_result (deleted: bool) (delete_error: "exn option")
datatype rename_result = Rename_result (renamed: bool) (rename_error: "exn option")

definition File_read :: "'s runtime \<Rightarrow> 's \<Rightarrow> string \<Rightarrow> read_result" where
  "File_read rt s filePath =
     (case fs_readFile rt s filePath of
        Inr content \<Rightarrow>
          (let extension = path_extname rt filePath;
               fileName = path_basename_suffix rt filePath extension
           in Read_ok fileName content extension (fileName @ extension))
      | Inl err \<Rightarrow> Read_failed (SystemError err))"

definition File_create :: "'s runtime \<Rightarrow> 's \<Rightarrow> string \<Rightarrow> string \<Rightarrow> create_result \<times> 's" where
  "File_create rt s filePath content =
     (case fs_writeFile rt s filePath content of
        (None, s') \<Rightarrow> (Create_result True None, s')
      | (Some err, s') \<Rightarrow> (Create_result False (Some (SystemError err)), s'))"

definition File_update :: "'s runtime \<Rightarrow> 's \<Rightarrow> string \<Rightarrow> string \<Rightarrow> update_result \<times> 's" where
  "File_update rt s filePath content =
     (case fs_writeFile rt s filePath content of
        (None, s') \<Rightarrow> (Update_result True None, s')
      | (Some err, s') \<Rightarrow> (Update_result False (Some (SystemError err)), s'))"

definition File_delete :: "'s runtime \<Rightarrow> 's \<Rightarrow> string \<Rightarrow> delete_result \<times> 's" where
  "File_delete rt s filePath =
     (case fs_unlink rt s filePath of
        (None, s') \<Rightarrow> (Delete_result True None, s')
      | (Some err, s') \<Rightarrow> (Delete_result False (Some (SystemError err)), s'))"

text \<open>
  \<^verbatim>\<open>File.rename\<close> and \<^verbatim>\<open>File.copy\<close> have a \<^verbatim>\<open>try\<close> block with more than one step.
  The block is the inner expression, of type \<open>exn + _\<close> (\<open>Inl\<close>: it threw), and the
  handler is the outer \<open>case\<close>.  A JavaScript function that ends without a
  \<^verbatim>\<open>return\<close> gives \<^verbatim>\<open>undefined\<close>: \<^verbatim>\<open>File.copy\<close> returns a \<open>bool option\<close>, \<open>None\<close> for
  \<^verbatim>\<open>undefined\<close>.
\<close>

definition File_rename :: "'s runtime \<Rightarrow> 's \<Rightarrow> string \<Rightarrow> string \<Rightarrow> rename_result \<times> 's" where
  "File_rename rt s oldFile newFile =
     (case (if Dir_check rt s oldFile
            then (Inl (Error ''It is not a valid file.''), s)
            else (case Dir_rename rt s oldFile newFile of
                    (ignored, s') \<Rightarrow> (Inr (Rename_result True None), s')))
      of (Inl err, s') \<Rightarrow> (Rename_result False (Some err), s')
       | (Inr result, s') \<Rightarrow> (result, s'))"

definition File_copy_try ::
  "'s runtime \<Rightarrow> 's \<Rightarrow> string \<Rightarrow> string \<Rightarrow> (exn + bool option) \<times> 's" where
  "File_copy_try rt s oldFilePath newFilePath =
     (case File_read rt s oldFilePath of
        Read_ok fileName content extension nameWithExtension \<Rightarrow>
          (case File_create rt s newFilePath content of
             (ignored, s') \<Rightarrow> (Inr (Some True), s'))
      | Read_failed err \<Rightarrow> (Inr None, s))"

definition File_copy :: "'s runtime \<Rightarrow> 's \<Rightarrow> string \<Rightarrow> string \<Rightarrow> bool option \<times> 's" where
  "File_copy rt s oldFilePath newFilePath =
     (case File_copy_try rt s oldFilePath newFilePath of
        (Inl error, s') \<Rightarrow> (Some False, s')
      | (Inr returned, s') \<Rightarrow> (returned, s'))"

section \<open>Dir.list\<close>

text \<open>
  An entry is the object \<^verbatim>\<open>info\<close>: \<^verbatim>\<open>extension\<close>, \<^verbatim>\<open>nameWithExtension\<close> and
  \<^verbatim>\<open>sub\<close> are \<open>None\<close> when the property is not set.

  \<^verbatim>\<open>list\<close> calls itself on every subdirectory when \<^verbatim>\<open>listSubPath\<close> is true; how deep
  that goes is decided by the file system, so the model carries fuel: the first argument
  bounds the depth of calls, and \<open>None\<close> says the bound was reached.  The inner
  \<open>case\<close> of \<open>Dir_list\<close> is the \<^verbatim>\<open>try\<close> block, the outer one the handler.
\<close>

datatype entry =
  Entry (info_path: string) (info_file: bool) (info_name: string)
    (info_extension: "string option") (info_nameWithExtension: "string option")
    (info_sub: "entry list option")

fun Dir_list ::
    "nat \<Rightarrow> 's runtime \<Rightarrow> 's \<Rightarrow> string \<Rightarrow> bool \<Rightarrow> (exn + entry list) option"
  and list_items ::
    "nat \<Rightarrow> 's runtime \<Rightarrow> 's \<Rightarrow> string \<Rightarrow> bool \<Rightarrow> string list \<Rightarrow> entry list
      \<Rightarrow> (exn + entry list) option"
where
  "Dir_list 0 rt s dirPath listSubPath = None"
| "Dir_list (Suc n) rt s dirPath listSubPath =
     (case (case fs_readdir rt s dirPath of
              Inl err \<Rightarrow> Some (Inl (SystemError err))
            | Inr items \<Rightarrow> list_items n rt s dirPath listSubPath items [])
      of None \<Rightarrow> None
       | Some (Inl err) \<Rightarrow> Some (Inr [])
       | Some (Inr contents) \<Rightarrow> Some (Inr contents))"
| "list_items n rt s dirPath listSubPath [] contents = Some (Inr contents)"
| "list_items n rt s dirPath listSubPath (item # items) contents =
     (let filePath = dirPath @ ''/'' @ item;
          isDir = Dir_check rt s filePath;
          fileNameWithExtension = path_basename rt filePath;
          fileName = path_parse_name rt filePath;
          fileExtension = path_extname rt filePath;
          extension = (if \<not> isDir then Some fileExtension else None);
          nameWithExtension = (if \<not> isDir then Some fileNameWithExtension else None)
      in if listSubPath \<and> isDir
         then (case Dir_list n rt s filePath True of
                 None \<Rightarrow> None
               | Some (Inl err) \<Rightarrow> Some (Inl err)
               | Some (Inr sub) \<Rightarrow>
                   list_items n rt s dirPath listSubPath items
                     (contents @ [Entry filePath (\<not> isDir) fileName extension nameWithExtension
                                    (Some sub)]))
         else list_items n rt s dirPath listSubPath items
                (contents @ [Entry filePath (\<not> isDir) fileName extension nameWithExtension
                               None]))"

section \<open>Dir.copy and Dir.move\<close>

text \<open>
  \<^verbatim>\<open>toPath\<close> is optional: \<open>None\<close> is the omitted argument.  \<^verbatim>\<open>!toPath\<close> is true for
  the omitted argument and for the empty string.  \<^verbatim>\<open>copy\<close> calls itself on every
  subdirectory, so it carries fuel like \<open>Dir_list\<close>; \<open>None\<close> also covers a
  \<^verbatim>\<open>lastName\<close> that does not return.  The listing is not recursive, one level of
  \<open>Dir_list\<close> is all it uses.
\<close>

fun Dir_copy ::
    "nat \<Rightarrow> 's runtime \<Rightarrow> 's \<Rightarrow> string \<Rightarrow> string option \<Rightarrow> ((exn + bool) \<times> 's) option"
  and copy_items ::
    "nat \<Rightarrow> 's runtime \<Rightarrow> 's \<Rightarrow> string \<Rightarrow> string \<Rightarrow> entry list
      \<Rightarrow> ((exn + bool) \<times> 's) option"
where
  "Dir_copy 0 rt s ofPath toPathArg = None"
| "Dir_copy (Suc n) rt s ofPath toPathArg =
     (case (if toPathArg = None \<or> toPathArg = Some []
            then Dir_lastName rt s ofPath []
            else toPathArg)
      of None \<Rightarrow> None
       | Some toPath \<Rightarrow>
           (let s1 = (if \<not> Dir_exists rt s toPath then snd (Dir_create rt s toPath) else s)
            in case Dir_list (Suc 0) rt s1 ofPath False of
                 None \<Rightarrow> None
               | Some (Inl err) \<Rightarrow> Some (Inl err, s1)
               | Some (Inr copies) \<Rightarrow> copy_items n rt s1 ofPath toPath copies))"
| "copy_items n rt s ofPath toPath [] = Some (Inr True, s)"
| "copy_items n rt s ofPath toPath (item # rest) =
     (let file = info_file item;
          before = info_path item
      in case regexp_replace_g rt ofPath before toPath of
           Inl err \<Rightarrow> Some (Inl err, s)
         | Inr after \<Rightarrow>
             if \<not> file
             then (case Dir_copy n rt s before (Some after) of
                     None \<Rightarrow> None
                   | Some (Inl err, s') \<Rightarrow> Some (Inl err, s')
                   | Some (Inr ignored, s') \<Rightarrow> copy_items n rt s' ofPath toPath rest)
             else (case File_copy rt s before after of
                     (ignored, s') \<Rightarrow> copy_items n rt s' ofPath toPath rest))"



section \<open>An in-memory runtime\<close>

text \<open>
  To run the methods on concrete inputs the parameter needs a value.  This section gives
  one: a small file system in memory, the \<^verbatim>\<open>path\<close> functions, and \<^verbatim>\<open>replace\<close> for a
  fragment of the pattern language.  The general theorems below hold for every runtime;
  this one supplies the concrete runs.
\<close>

subsection \<open>Path resolution\<close>

text \<open>
  The disk maps the absolute paths that exist, as lists of names below the root, to what
  is there; the root itself is a directory and has no entry.  The working directory is
  the root.  \<open>locked\<close> lists locations that refuse every change (a read-only mount, a
  directory without write permission); \<open>no_search\<close> lists directories that can be
  listed but not entered (read permission without search permission), so that a name
  below them does not resolve.
\<close>

datatype node = File_node string | Dir_node

record disk =
  nodes :: "(string list \<times> node) list"
  locked :: "string list list"
  no_search :: "string list list"

fun split_slash :: "string \<Rightarrow> string list" where
  "split_slash [] = [[]]"
| "split_slash (c # cs) =
     (if c = CHR ''/'' then [] # split_slash cs
      else (case split_slash cs of [] \<Rightarrow> [[c]] | x # xs \<Rightarrow> (c # x) # xs))"

definition node_at :: "disk \<Rightarrow> string list \<Rightarrow> node option" where
  "node_at d p = (if p = [] then Some Dir_node else map_of (nodes d) p)"

fun resolve :: "disk \<Rightarrow> string list \<Rightarrow> string list \<Rightarrow> errno + string list" where
  "resolve d cur [] = Inr cur"
| "resolve d cur (c # cs) =
     (if c = [] then resolve d cur cs
      else (case node_at d cur of
              None \<Rightarrow> Inl ENOENT
            | Some (File_node content) \<Rightarrow> Inl ENOTDIR
            | Some Dir_node \<Rightarrow>
                if cur \<in> set (no_search d) then Inl EACCES
                else if c = ''.'' then resolve d cur cs
                else if c = ''..'' then resolve d (butlast cur) cs
                else resolve d (cur @ [c]) cs))"

definition lookup :: "disk \<Rightarrow> string \<Rightarrow> errno + string list" where
  "lookup d path = (if path = [] then Inl ENOENT else resolve d [] (split_slash path))"

definition is_prefix :: "string list \<Rightarrow> string list \<Rightarrow> bool" where
  "is_prefix p q = (take (length p) q = p)"

definition protected :: "disk \<Rightarrow> string list \<Rightarrow> bool" where
  "protected d p = list_ex (\<lambda>l. is_prefix l p \<or> is_prefix p l) (locked d)"

subsection \<open>The file-system calls\<close>

definition m_access :: "disk \<Rightarrow> string \<Rightarrow> errno option" where
  "m_access d path =
     (case lookup d path of
        Inl e \<Rightarrow> Some e
      | Inr p \<Rightarrow> (case node_at d p of None \<Rightarrow> Some ENOENT | Some n \<Rightarrow> None))"

definition m_stat_isDirectory :: "disk \<Rightarrow> string \<Rightarrow> errno + bool" where
  "m_stat_isDirectory d path =
     (case lookup d path of
        Inl e \<Rightarrow> Inl e
      | Inr p \<Rightarrow>
          (case node_at d p of
             None \<Rightarrow> Inl ENOENT
           | Some Dir_node \<Rightarrow> Inr True
           | Some (File_node content) \<Rightarrow> Inr False))"

definition children :: "disk \<Rightarrow> string list \<Rightarrow> string list" where
  "children d p = map (\<lambda>(k, n). last k) (filter (\<lambda>(k, n). k \<noteq> [] \<and> butlast k = p) (nodes d))"

definition m_readdir :: "disk \<Rightarrow> string \<Rightarrow> errno + string list" where
  "m_readdir d path =
     (case lookup d path of
        Inl e \<Rightarrow> Inl e
      | Inr p \<Rightarrow>
          (case node_at d p of
             None \<Rightarrow> Inl ENOENT
           | Some Dir_node \<Rightarrow> Inr (children d p)
           | Some (File_node content) \<Rightarrow> Inl ENOTDIR))"

definition m_readFile :: "disk \<Rightarrow> string \<Rightarrow> errno + string" where
  "m_readFile d path =
     (case lookup d path of
        Inl e \<Rightarrow> Inl e
      | Inr p \<Rightarrow>
          (case node_at d p of
             None \<Rightarrow> Inl ENOENT
           | Some Dir_node \<Rightarrow> Inl EISDIR
           | Some (File_node content) \<Rightarrow> Inr content))"

definition m_mkdir :: "disk \<Rightarrow> string \<Rightarrow> errno option \<times> disk" where
  "m_mkdir d path =
     (case lookup d path of
        Inl e \<Rightarrow> (Some e, d)
      | Inr p \<Rightarrow>
          if node_at d p \<noteq> None then (Some EEXIST, d)
          else if node_at d (butlast p) \<noteq> Some Dir_node then (Some ENOENT, d)
          else if protected d p then (Some EACCES, d)
          else (None, d\<lparr>nodes := nodes d @ [(p, Dir_node)]\<rparr>))"

fun put :: "string list \<Rightarrow> node \<Rightarrow> (string list \<times> node) list \<Rightarrow> (string list \<times> node) list" where
  "put p n [] = [(p, n)]"
| "put p n ((k, v) # rest) = (if k = p then (p, n) # rest else (k, v) # put p n rest)"

definition m_writeFile :: "disk \<Rightarrow> string \<Rightarrow> string \<Rightarrow> errno option \<times> disk" where
  "m_writeFile d path content =
     (case lookup d path of
        Inl e \<Rightarrow> (Some e, d)
      | Inr p \<Rightarrow>
          if node_at d p = Some Dir_node then (Some EISDIR, d)
          else if node_at d (butlast p) \<noteq> Some Dir_node then (Some ENOENT, d)
          else if protected d p then (Some EACCES, d)
          else (None, d\<lparr>nodes := put p (File_node content) (nodes d)\<rparr>))"

definition m_unlink :: "disk \<Rightarrow> string \<Rightarrow> errno option \<times> disk" where
  "m_unlink d path =
     (case lookup d path of
        Inl e \<Rightarrow> (Some e, d)
      | Inr p \<Rightarrow>
          (case node_at d p of
             None \<Rightarrow> (Some ENOENT, d)
           | Some Dir_node \<Rightarrow> (Some EISDIR, d)
           | Some (File_node content) \<Rightarrow>
               if protected d p then (Some EACCES, d)
               else (None, d\<lparr>nodes := filter (\<lambda>(k, n). k \<noteq> p) (nodes d)\<rparr>)))"

text \<open>
  \<^verbatim>\<open>rm(path, {recursive: true})\<close>: without \<^verbatim>\<open>force\<close> a missing path is an error.  The
  call removes the path and everything below it, or it fails and removes nothing.
\<close>

definition m_rm_recursive :: "disk \<Rightarrow> string \<Rightarrow> errno option \<times> disk" where
  "m_rm_recursive d path =
     (case lookup d path of
        Inl e \<Rightarrow> (Some e, d)
      | Inr p \<Rightarrow>
          if p = [] then (Some EINVAL, d)
          else if node_at d p = None then (Some ENOENT, d)
          else if protected d p then (Some EACCES, d)
          else (None, d\<lparr>nodes := filter (\<lambda>(k, n). \<not> is_prefix p k) (nodes d)\<rparr>))"

definition m_rename :: "disk \<Rightarrow> string \<Rightarrow> string \<Rightarrow> errno option \<times> disk" where
  "m_rename d oldPath newPath =
     (case lookup d oldPath of
        Inl e \<Rightarrow> (Some e, d)
      | Inr p \<Rightarrow>
          (case lookup d newPath of
             Inl e \<Rightarrow> (Some e, d)
           | Inr q \<Rightarrow>
               if node_at d p = None then (Some ENOENT, d)
               else if p = [] \<or> q = [] then (Some EINVAL, d)
               else if p = q then (None, d)
               else if is_prefix p q then (Some EINVAL, d)
               else if node_at d (butlast q) \<noteq> Some Dir_node then (Some ENOENT, d)
               else if protected d p \<or> protected d q then (Some EACCES, d)
               else if node_at d p = Some Dir_node \<and> node_at d q \<noteq> None
                       \<and> node_at d q \<noteq> Some Dir_node then (Some ENOTDIR, d)
               else if node_at d p \<noteq> Some Dir_node \<and> node_at d q = Some Dir_node
                 then (Some EISDIR, d)
               else if node_at d q = Some Dir_node \<and> children d q \<noteq> [] then (Some ENOTEMPTY, d)
               else (None, d\<lparr>nodes :=
                       map (\<lambda>(k, n). if is_prefix p k then (q @ drop (length p) k, n) else (k, n))
                         (filter (\<lambda>(k, n). k \<noteq> q) (nodes d))\<rparr>)))"

subsection \<open>The path functions\<close>

text \<open>
  What the POSIX variant of Node's \<^verbatim>\<open>path\<close> module computes for a path that ends in a
  name a directory can hold: the last component, its extension (from the last dot, unless
  that dot starts the name), and the component without the extension.
\<close>

definition m_basename :: "string \<Rightarrow> string" where
  "m_basename path =
     (case filter (\<lambda>c. c \<noteq> []) (split_slash path) of [] \<Rightarrow> [] | c # cs \<Rightarrow> last (c # cs))"

definition ext_of :: "string \<Rightarrow> string" where
  "ext_of base =
     (let tail = rev (takeWhile (\<lambda>c. c \<noteq> CHR ''.'') (rev base))
      in if CHR ''.'' \<notin> set base \<or> length tail + 1 = length base \<or> base = ''..''
         then [] else CHR ''.'' # tail)"

definition m_extname :: "string \<Rightarrow> string" where
  "m_extname path = ext_of (m_basename path)"

definition m_parse_name :: "string \<Rightarrow> string" where
  "m_parse_name path =
     (let base = m_basename path in take (length base - length (ext_of base)) base)"

definition m_basename_suffix :: "string \<Rightarrow> string \<Rightarrow> string" where
  "m_basename_suffix path suffix =
     (let base = m_basename path
      in if suffix \<noteq> [] \<and> length suffix < length base
            \<and> drop (length base - length suffix) base = suffix
         then take (length base - length suffix) base else base)"

subsection \<open>Global replace with a pattern\<close>

text \<open>
  \<^verbatim>\<open>new RegExp(pattern, 'g')\<close> reads its argument as a pattern.  The fragment
  modelled here: a character stands for itself, \<^verbatim>\<open>.\<close> for any character but a line
  break, a backslash before a punctuation character makes it literal, and \<^verbatim>\<open>*\<close>,
  \<^verbatim>\<open>+\<close>, \<^verbatim>\<open>?\<close> after one of these repeat it (greedy, with backtracking).  A
  quantifier with nothing to repeat and a backslash at the end are syntax errors, as in
  ECMAScript.  Groups, classes, braces, alternation, anchors, lazy quantifiers and the
  other escapes are outside the fragment: for them this runtime answers \<open>NotModelled\<close>,
  which is no statement about Node.js.
\<close>

datatype atom = Lit char | Any_char
datatype quant = Once | Star | Plus | Opt

definition is_quantifier :: "char \<Rightarrow> bool" where
  "is_quantifier c = (c = CHR ''*'' \<or> c = CHR ''+'' \<or> c = CHR ''?'')"

definition quant_of :: "char \<Rightarrow> quant" where
  "quant_of c = (if c = CHR ''*'' then Star else if c = CHR ''+'' then Plus else Opt)"

definition is_punctuation :: "char \<Rightarrow> bool" where
  "is_punctuation c = (c \<in> set ''^$.*+?()[]{}|/-'' \<or> c = CHR 0x5C)"

definition outside_fragment :: "char \<Rightarrow> bool" where
  "outside_fragment c = (c \<in> set ''()[]{}|^$'')"

fun parse_pattern :: "string \<Rightarrow> exn + (atom \<times> quant) list"
  and parse_quant :: "atom \<Rightarrow> string \<Rightarrow> exn + (atom \<times> quant) list"
where
  "parse_pattern [] = Inr []"
| "parse_pattern (c # cs) =
     (if c = CHR 0x5C
      then (case cs of
              [] \<Rightarrow> Inl (SyntaxError ''backslash at end of pattern'')
            | e # rest \<Rightarrow>
                if is_punctuation e then parse_quant (Lit e) rest
                else Inl (NotModelled ''escape''))
      else if is_quantifier c then Inl (SyntaxError ''Nothing to repeat'')
      else if outside_fragment c then Inl (NotModelled ''metacharacter'')
      else if c = CHR ''.'' then parse_quant Any_char cs
      else parse_quant (Lit c) cs)"
| "parse_quant a [] = Inr [(a, Once)]"
| "parse_quant a (q # rest) =
     (if is_quantifier q
      then (case rest of
              [] \<Rightarrow> Inr [(a, quant_of q)]
            | q' # rest' \<Rightarrow>
                if q' = CHR ''?'' then Inl (NotModelled ''lazy quantifier'')
                else if is_quantifier q' then Inl (SyntaxError ''Nothing to repeat'')
                else (case parse_pattern rest of
                        Inl e \<Rightarrow> Inl e
                      | Inr r \<Rightarrow> Inr ((a, quant_of q) # r)))
      else (case parse_pattern (q # rest) of
              Inl e \<Rightarrow> Inl e
            | Inr r \<Rightarrow> Inr ((a, Once) # r)))"

definition atom_matches :: "atom \<Rightarrow> char \<Rightarrow> bool" where
  "atom_matches a c =
     (case a of Lit l \<Rightarrow> c = l | Any_char \<Rightarrow> c \<noteq> CHR 0x0A \<and> c \<noteq> CHR 0x0D)"

text \<open>
  \<open>match_here r s\<close>: the length of the match of \<open>r\<close> that starts at the head of \<open>s\<close>,
  the one backtracking finds first.
\<close>

fun match_here :: "(atom \<times> quant) list \<Rightarrow> string \<Rightarrow> nat option" where
  "match_here [] s = Some 0"
| "match_here ((a, Once) # r) [] = None"
| "match_here ((a, Once) # r) (c # cs) =
     (if atom_matches a c then map_option Suc (match_here r cs) else None)"
| "match_here ((a, Plus) # r) [] = None"
| "match_here ((a, Plus) # r) (c # cs) =
     (if atom_matches a c then map_option Suc (match_here ((a, Star) # r) cs) else None)"
| "match_here ((a, Star) # r) [] = match_here r []"
| "match_here ((a, Star) # r) (c # cs) =
     (if atom_matches a c
      then (case match_here ((a, Star) # r) cs of
              Some n \<Rightarrow> Some (Suc n)
            | None \<Rightarrow> match_here r (c # cs))
      else match_here r (c # cs))"
| "match_here ((a, Opt) # r) [] = match_here r []"
| "match_here ((a, Opt) # r) (c # cs) =
     (if atom_matches a c
      then (case match_here r cs of
              Some n \<Rightarrow> Some (Suc n)
            | None \<Rightarrow> match_here r (c # cs))
      else match_here r (c # cs))"

text \<open>
  The replacement text is a template: \<^verbatim>\<open>$$\<close> is a dollar, \<^verbatim>\<open>$&\<close> the match,
  \<^verbatim>\<open>$`\<close> the text before it and \<^verbatim>\<open>$'\<close> the text after it.  The fragment has no
  groups, so \<^verbatim>\<open>$1\<close> and the like stand for themselves.
\<close>

fun expand :: "string \<Rightarrow> string \<Rightarrow> string \<Rightarrow> string \<Rightarrow> string" where
  "expand [] matched before after = []"
| "expand [c] matched before after = [c]"
| "expand (c # c' # rest) matched before after =
     (if c = CHR ''$'' \<and> c' = CHR ''$'' then CHR ''$'' # expand rest matched before after
      else if c = CHR ''$'' \<and> c' = CHR ''&'' then matched @ expand rest matched before after
      else if c = CHR ''$'' \<and> c' = CHR 0x60 then before @ expand rest matched before after
      else if c = CHR ''$'' \<and> c' = CHR 0x27 then after @ expand rest matched before after
      else c # expand (c' # rest) matched before after)"

text \<open>
  The scan of the \<^verbatim>\<open>g\<close> flag: at each position the first match is replaced and the scan
  goes on behind it; after an empty match it steps over one character, which is copied.
\<close>

fun replace_scan :: "(atom \<times> quant) list \<Rightarrow> string \<Rightarrow> string \<Rightarrow> string \<Rightarrow> string" where
  "replace_scan r replacement before [] =
     (case match_here r [] of
        None \<Rightarrow> []
      | Some n \<Rightarrow> expand replacement [] before [])"
| "replace_scan r replacement before (c # cs) =
     (case match_here r (c # cs) of
        None \<Rightarrow> c # replace_scan r replacement (before @ [c]) cs
      | Some 0 \<Rightarrow>
          expand replacement [] before (c # cs) @ c # replace_scan r replacement (before @ [c]) cs
      | Some (Suc n) \<Rightarrow>
          expand replacement (c # take n cs) before (drop n cs)
            @ replace_scan r replacement (before @ c # take n cs) (drop n cs))"

definition m_replace_g :: "string \<Rightarrow> string \<Rightarrow> string \<Rightarrow> exn + string" where
  "m_replace_g pattern subject replacement =
     (case parse_pattern pattern of
        Inl e \<Rightarrow> Inl e
      | Inr r \<Rightarrow> Inr (replace_scan r replacement [] subject))"

text \<open>
  The replacement the specification describes, for comparison: every occurrence of the
  source text itself, taken from left to right, gives way to the replacement text.  A
  character is plain when the pattern language gives it no meaning of its own.
\<close>

definition plain_char :: "char \<Rightarrow> bool" where
  "plain_char c =
     (\<not> is_quantifier c \<and> \<not> outside_fragment c \<and> c \<noteq> CHR ''.'' \<and> c \<noteq> CHR 0x5C)"

fun literal_replace_all :: "string \<Rightarrow> string \<Rightarrow> string \<Rightarrow> string" where
  "literal_replace_all pattern replacement [] = (if pattern = [] then replacement else [])"
| "literal_replace_all pattern replacement (c # cs) =
     (if pattern = [] then replacement @ c # literal_replace_all pattern replacement cs
      else if take (length pattern) (c # cs) = pattern
      then replacement @ literal_replace_all pattern replacement (drop (length pattern - 1) cs)
      else c # literal_replace_all pattern replacement cs)"

definition memory :: "disk runtime" where
  "memory =
     \<lparr> fs_access = m_access, fs_mkdir = m_mkdir, fs_rename = m_rename,
       fs_rm_recursive = m_rm_recursive, fs_readdir = m_readdir,
       fs_stat_isDirectory = m_stat_isDirectory, fs_readFile = m_readFile,
       fs_writeFile = m_writeFile, fs_unlink = m_unlink,
       path_basename = m_basename, path_basename_suffix = m_basename_suffix,
       path_parse_name = m_parse_name, path_extname = m_extname,
       regexp_replace_g = m_replace_g \<rparr>"

subsection \<open>What a copy can change\<close>


subsection \<open>Example disks\<close>

text \<open>
  \<open>project\<close>: a directory \<^verbatim>\<open>my.app\<close> with the files \<^verbatim>\<open>my-app\<close> and \<^verbatim>\<open>notes.txt\<close> and
  a subdirectory \<^verbatim>\<open>lib\<close> holding \<^verbatim>\<open>util.js\<close>; beside it the file \<^verbatim>\<open>a-copy.txt\<close>
  and the empty directory \<^verbatim>\<open>empty\<close>.
\<close>

definition project :: disk where
  "project =
     \<lparr> nodes =
         [([''my.app''], Dir_node),
          ([''my.app'', ''my-app''], File_node ''run''),
          ([''my.app'', ''notes.txt''], File_node ''todo''),
          ([''my.app'', ''lib''], Dir_node),
          ([''my.app'', ''lib'', ''util.js''], File_node ''export''),
          ([''a-copy.txt''], File_node ''old''),
          ([''empty''], Dir_node)],
       locked = [], no_search = [] \<rparr>"




text \<open>The same disk with \<^verbatim>\<open>empty\<close> write-protected: nothing can be created in it.\<close>

definition project_empty_locked :: disk where
  "project_empty_locked = project\<lparr>locked := [[''empty'']]\<rparr>"


text \<open>The same disk with \<^verbatim>\<open>my.app\<close> readable but not searchable.\<close>

definition project_no_search :: disk where
  "project_no_search = project\<lparr>no_search := [[''my.app'']]\<rparr>"


section \<open>Dir.lastName: which name it returns, and when\<close>

lemma attempt_count_eq: "attempt_count k = min k (2 ^ 53)"
  unfolding attempt_count_def
proof (induction k)
  case 0
  show ?case by simp
next
  case (Suc k)
  then show ?case by (simp add: count_incr_def min_def)
qed

lemma loop_skip:
  "(\<And>j. j < k \<Longrightarrow> Dir_exists rt s (findName b e ((count_incr ^^ j) c))) \<Longrightarrow>
   lastName_loop rt s b e c = lastName_loop rt s b e ((count_incr ^^ k) c)"
proof (induction k arbitrary: c)
  case 0
  show ?case by simp
next
  case (Suc k)
  have taken: "Dir_exists rt s (findName b e c)"
    using Suc.prems [of 0] by simp
  have step: "lastName_loop rt s b e c = lastName_loop rt s b e (count_incr c)"
    by (subst lastName_loop.simps) (simp add: taken)
  have shifted: "\<And>j. j < k \<Longrightarrow> Dir_exists rt s (findName b e ((count_incr ^^ j) (count_incr c)))"
    using Suc.prems [of "Suc _"] by (simp add: funpow_swap1)
  show ?case
    using Suc.IH [OF shifted] step by (simp add: funpow_swap1)
qed

lemma loop_returns_free:
  assumes "lastName_loop rt s b e c = Some name"
  shows "\<exists>j. \<not> Dir_exists rt s (findName b e ((count_incr ^^ j) c))"
proof (rule lastName_loop.raw_induct
    [where P = "\<lambda>rt s b e c name. \<exists>j. \<not> Dir_exists rt s (findName b e ((count_incr ^^ j) c))",
     OF _ assms])
  fix f :: "'a runtime \<Rightarrow> 'a \<Rightarrow> string \<Rightarrow> string \<Rightarrow> nat \<Rightarrow> string option"
  fix rt s b e c name
  assume IH: "\<And>rt s b e c name. f rt s b e c = Some name \<Longrightarrow>
                \<exists>j. \<not> Dir_exists rt s (findName b e ((count_incr ^^ j) c))"
  assume body: "(if \<not> Dir_exists rt s (findName b e c) then Some (findName b e c)
                 else f rt s b e (count_incr c)) = Some name"
  show "\<exists>j. \<not> Dir_exists rt s (findName b e ((count_incr ^^ j) c))"
  proof (cases "Dir_exists rt s (findName b e c)")
    case False
    then have "\<not> Dir_exists rt s (findName b e ((count_incr ^^ 0) c))" by simp
    then show ?thesis by blast
  next
    case True
    with body have "f rt s b e (count_incr c) = Some name" by simp
    from IH [OF this] obtain j where
      "\<not> Dir_exists rt s (findName b e ((count_incr ^^ j) (count_incr c)))" by blast
    then have "\<not> Dir_exists rt s (findName b e ((count_incr ^^ Suc j) c))"
      by (simp add: funpow_swap1)
    then show ?thesis by blast
  qed
qed

lemma loop_first_free:
  assumes free: "\<not> Dir_exists rt s (findName b e ((count_incr ^^ k) c))"
      and taken: "\<And>j. j < k \<Longrightarrow> Dir_exists rt s (findName b e ((count_incr ^^ j) c))"
  shows "lastName_loop rt s b e c = Some (findName b e ((count_incr ^^ k) c))"
proof -
  have "lastName_loop rt s b e c = lastName_loop rt s b e ((count_incr ^^ k) c)"
    using taken by (rule loop_skip)
  also have "\<dots> = Some (findName b e ((count_incr ^^ k) c))"
    by (subst lastName_loop.simps) (simp add: free)
  finally show ?thesis .
qed

lemma lastName_least:
  assumes ex: "\<exists>k. \<not> Dir_exists rt s (findName b e (attempt_count k))"
  shows "\<exists>k. Dir_lastName rt s b e = Some (findName b e (attempt_count k)) \<and>
             \<not> Dir_exists rt s (findName b e (attempt_count k)) \<and>
             (\<forall>j<k. Dir_exists rt s (findName b e (attempt_count j)))"
proof -
  define k where "k = (LEAST k. \<not> Dir_exists rt s (findName b e (attempt_count k)))"
  have free: "\<not> Dir_exists rt s (findName b e (attempt_count k))"
    unfolding k_def using ex by (rule LeastI_ex)
  have taken: "\<And>j. j < k \<Longrightarrow> Dir_exists rt s (findName b e (attempt_count j))"
    unfolding k_def using not_less_Least by blast
  have "Dir_lastName rt s b e = Some (findName b e (attempt_count k))"
    unfolding Dir_lastName_def attempt_count_def
    by (rule loop_first_free) (use free taken in \<open>simp_all add: attempt_count_def\<close>)
  with free taken show ?thesis by blast
qed

lemma lastName_returns_free:
  "Dir_lastName rt s b e = Some name \<Longrightarrow>
   \<exists>k. \<not> Dir_exists rt s (findName b e (attempt_count k))"
  unfolding Dir_lastName_def attempt_count_def by (rule loop_returns_free)

lemma number_to_string_not_Nil: "number_to_string n \<noteq> []"
  by (subst number_to_string.simps) simp

lemma number_to_string_one: "number_to_string n = ''1'' \<Longrightarrow> n = 1"
proof -
  assume a: "number_to_string n = ''1''"
  show "n = 1"
  proof (cases "n < 10")
    case True
    with a have "digit_char n = CHR ''1''"
      by (subst (asm) number_to_string.simps) simp
    then have "(of_char (char_of (48 + n)) :: nat) = of_char CHR ''1''"
      by (simp add: digit_char_def)
    with True show ?thesis by simp
  next
    case False
    with a have "number_to_string (n div 10) @ [digit_char (n mod 10)] = ''1''"
      by (subst (asm) number_to_string.simps) simp
    then have "number_to_string (n div 10) = []"
      by (metis append_butlast_last_id butlast_snoc butlast.simps(2) list.distinct(1) butlast.simps(1))
    then show ?thesis using number_to_string_not_Nil by blast
  qed
qed

lemma findName_never_index_one:
  "findName baseName extension k \<noteq> baseName @ ''-copy-1'' @ extension"
proof (cases "k > 1")
  case True
  show ?thesis
  proof
    assume "findName baseName extension k = baseName @ ''-copy-1'' @ extension"
    with True have "number_to_string k = ''1''" by (simp add: findName_def)
    then have "k = 1" by (rule number_to_string_one)
    with True show False by simp
  qed
next
  case False
  show ?thesis
  proof
    assume "findName baseName extension k = baseName @ ''-copy-1'' @ extension"
    with False have "extension = ''-1'' @ extension" by (simp add: findName_def)
    then have "length extension = length (''-1'' @ extension)" by (rule arg_cong)
    then show False by simp
  qed
qed

lemma number_to_string_two: "number_to_string 2 = ''2''"
  by code_simp


lemma lastName_a_txt_first:
  assumes "\<not> Dir_exists rt s ''a-copy.txt''"
  shows "Dir_lastName rt s ''a'' ''.txt'' = Some ''a-copy.txt''"
  unfolding Dir_lastName_def
  by (subst lastName_loop.simps) (use assms in \<open>simp add: findName_def\<close>)

lemma lastName_a_txt_second:
  assumes "Dir_exists rt s ''a-copy.txt''" and "\<not> Dir_exists rt s ''a-copy-2.txt''"
  shows "Dir_lastName rt s ''a'' ''.txt'' = Some ''a-copy-2.txt''"
proof -
  have i1: "(count_incr ^^ 1) 0 = 1" and i2: "(count_incr ^^ 2) 0 = 2"
    using attempt_count_eq [of 1] attempt_count_eq [of 2] by (simp_all add: attempt_count_def)
  have c0: "findName ''a'' ''.txt'' ((count_incr ^^ 0) 0) = ''a-copy.txt''"
    by (simp add: findName_def)
  have c1: "findName ''a'' ''.txt'' ((count_incr ^^ 1) 0) = ''a-copy.txt''"
    unfolding i1 by (simp add: findName_def)
  have c2: "findName ''a'' ''.txt'' ((count_incr ^^ 2) 0) = ''a-copy-2.txt''"
    unfolding i2 by (simp add: findName_def number_to_string_two)
  have taken: "\<And>j. j < 2 \<Longrightarrow> Dir_exists rt s (findName ''a'' ''.txt'' ((count_incr ^^ j) 0))"
  proof -
    fix j :: nat
    assume "j < 2"
    then have "j = 0 \<or> j = 1" by auto
    then show "Dir_exists rt s (findName ''a'' ''.txt'' ((count_incr ^^ j) 0))"
      using c0 c1 assms(1) by auto
  qed
  have free: "\<not> Dir_exists rt s (findName ''a'' ''.txt'' ((count_incr ^^ 2) 0))"
    using c2 assms(2) by simp
  show ?thesis
    unfolding Dir_lastName_def using loop_first_free [OF free taken] c2 by simp
qed

text \<open>
  The decimal numeral of the count: its digits, read back, give the count.
\<close>

lemma digit_chars: "map digit_char [0..<10] = ''0123456789''"
  by code_simp

lemma digit_char_nth: "d < 10 \<Longrightarrow> digit_char d = ''0123456789'' ! d"
proof -
  assume d: "d < 10"
  then have "map digit_char [0..<10] ! d = digit_char d" by simp
  then show ?thesis by (simp only: digit_chars)
qed

lemma is_digit_digit_char: "d < 10 \<Longrightarrow> is_digit (digit_char d)"
proof -
  assume d: "d < 10"
  then have "''0123456789'' ! d \<in> set ''0123456789''" by (intro nth_mem) simp
  with d show ?thesis by (simp only: is_digit_def digit_char_nth)
qed

lemma digit_value_digit_char: "d < 10 \<Longrightarrow> digit_value (digit_char d) = d"
  by (simp add: digit_value_def digit_char_def)

lemma decimal_value_snoc: "decimal_value (ds @ [c]) = 10 * decimal_value ds + digit_value c"
  by (simp add: decimal_value_def)

lemma decimal_value_number_to_string: "decimal_value (number_to_string n) = n"
proof (induction n rule: number_to_string.induct)
  case (1 n)
  show ?case
  proof (cases "n < 10")
    case True
    then have "number_to_string n = [digit_char n]" by (subst number_to_string.simps) simp
    with True show ?thesis by (simp add: decimal_value_def digit_value_digit_char)
  next
    case False
    then have "number_to_string n = number_to_string (n div 10) @ [digit_char (n mod 10)]"
      by (subst number_to_string.simps) simp
    with False "1.IH" show ?thesis
      by (simp add: decimal_value_snoc digit_value_digit_char)
  qed
qed

lemma number_to_string_digits: "list_all is_digit (number_to_string n)"
proof (induction n rule: number_to_string.induct)
  case (1 n)
  show ?case
  proof (cases "n < 10")
    case True
    then have "number_to_string n = [digit_char n]" by (subst number_to_string.simps) simp
    with True show ?thesis by (simp add: is_digit_digit_char)
  next
    case False
    then have "number_to_string n = number_to_string (n div 10) @ [digit_char (n mod 10)]"
      by (subst number_to_string.simps) simp
    with False "1.IH" show ?thesis by (simp add: is_digit_digit_char)
  qed
qed

lemma number_to_string_no_leading_zero: "0 < n \<Longrightarrow> hd (number_to_string n) \<noteq> CHR ''0''"
proof (induction n rule: number_to_string.induct)
  case (1 n)
  show ?case
  proof (cases "n < 10")
    case True
    then have eq: "number_to_string n = [digit_char n]" by (subst number_to_string.simps) simp
    show ?thesis
    proof
      assume "hd (number_to_string n) = CHR ''0''"
      with eq have "digit_value (digit_char n) = digit_value CHR ''0''" by simp
      with True have "n = 0" by (simp add: digit_value_digit_char) (simp add: digit_value_def)
      with "1.prems" show False by simp
    qed
  next
    case False
    then have eq: "number_to_string n = number_to_string (n div 10) @ [digit_char (n mod 10)]"
      by (subst number_to_string.simps) simp
    from False have "0 < n div 10" by simp
    with "1.IH" False have "hd (number_to_string (n div 10)) \<noteq> CHR ''0''" by simp
    with eq number_to_string_not_Nil [of "n div 10"] show ?thesis by simp
  qed
qed

lemma number_to_string_inj: "number_to_string a = number_to_string b \<Longrightarrow> a = b"
proof -
  assume "number_to_string a = number_to_string b"
  then have "decimal_value (number_to_string a) = decimal_value (number_to_string b)"
    by (rule arg_cong)
  then show "a = b" by (simp only: decimal_value_number_to_string)
qed

lemma copy_suffix_inj: "copy_suffix i = copy_suffix j \<Longrightarrow> i = j"
proof -
  assume eq: "copy_suffix i = copy_suffix j"
  show "i = j"
  proof (cases "i = 0")
    case True
    show ?thesis
    proof (cases "j = 0")
      case True
      with \<open>i = 0\<close> show ?thesis by simp
    next
      case False
      with True eq show ?thesis by (simp add: copy_suffix_def)
    qed
  next
    case False
    show ?thesis
    proof (cases "j = 0")
      case True
      with False eq show ?thesis by (simp add: copy_suffix_def)
    next
      case j: False
      with False eq have "number_to_string (i + 1) = number_to_string (j + 1)"
        by (simp add: copy_suffix_def)
      then have "i + 1 = j + 1" by (rule number_to_string_inj)
      then show ?thesis by simp
    qed
  qed
qed

lemma findName_copy_suffix:
  "findName baseName extension count = baseName @ copy_suffix (count - 1) @ extension"
proof (cases "count > 1")
  case True
  then have "count - 1 \<noteq> 0" and "count - 1 + 1 = count" by simp_all
  with True show ?thesis by (simp add: findName_def copy_suffix_def)
next
  case False
  then have "count - 1 = 0" by simp
  with False show ?thesis by (simp add: findName_def copy_suffix_def)
qed

lemma copy_suffix_values:
  "copy_suffix 0 = ''-copy''" "copy_suffix 1 = ''-copy-2''" "copy_suffix 2 = ''-copy-3''"
  "copy_suffix 9 = ''-copy-10''" "copy_suffix 122 = ''-copy-123''"
  by code_simp+

lemma lastName_first_of_sequence:
  assumes free: "\<not> Dir_exists rt s (b @ copy_suffix i @ e)"
      and taken: "\<And>j. j < i \<Longrightarrow> Dir_exists rt s (b @ copy_suffix j @ e)"
      and bound: "i < 2 ^ 53"
  shows "Dir_lastName rt s b e = Some (b @ copy_suffix i @ e)"
proof -
  define k where "k = (if i = 0 then 0 else i + 1)"
  have count: "(count_incr ^^ k) 0 = k"
    using attempt_count_eq [of k] bound by (simp add: attempt_count_def k_def)
  have name: "findName b e ((count_incr ^^ k) 0) = b @ copy_suffix i @ e"
    unfolding count by (simp add: findName_copy_suffix k_def)
  have before: "\<And>j. j < k \<Longrightarrow> Dir_exists rt s (findName b e ((count_incr ^^ j) 0))"
  proof -
    fix j
    assume j: "j < k"
    then have i: "i \<noteq> 0" and j': "j \<le> i" by (auto simp: k_def split: if_splits)
    have "(count_incr ^^ j) 0 = j"
      using attempt_count_eq [of j] bound j' by (simp add: attempt_count_def)
    then have "findName b e ((count_incr ^^ j) 0) = b @ copy_suffix (j - 1) @ e"
      by (simp add: findName_copy_suffix)
    moreover have "j - 1 < i" using i j' by simp
    ultimately show "Dir_exists rt s (findName b e ((count_incr ^^ j) 0))"
      using taken by simp
  qed
  have "lastName_loop rt s b e 0 = Some (findName b e ((count_incr ^^ k) 0))"
    by (rule loop_first_free) (use free before name in simp_all)
  with name show ?thesis by (simp add: Dir_lastName_def)
qed

lemma lastName_result_in_sequence:
  assumes ret: "Dir_lastName rt s b e = Some name"
  shows "\<exists>i. name = b @ copy_suffix i @ e \<and> \<not> Dir_exists rt s name \<and>
             (\<forall>j<i. Dir_exists rt s (b @ copy_suffix j @ e))"
proof -
  from lastName_least [OF lastName_returns_free [OF ret]] obtain k where
    k: "Dir_lastName rt s b e = Some (findName b e (attempt_count k))"
       "\<not> Dir_exists rt s (findName b e (attempt_count k))"
       "\<forall>j<k. Dir_exists rt s (findName b e (attempt_count j))"
    by blast
  define c where "c = attempt_count k"
  have c: "c = min k (2 ^ 53)" by (simp add: c_def attempt_count_eq)
  from k(1) ret have name: "name = b @ copy_suffix (c - 1) @ e"
    by (simp add: c_def findName_copy_suffix)
  have "\<forall>j<c - 1. Dir_exists rt s (b @ copy_suffix j @ e)"
  proof (intro allI impI)
    fix j
    assume j: "j < c - 1"
    then have lt: "Suc j < k" and small: "Suc j \<le> 2 ^ 53" using c by simp_all
    from small have "attempt_count (Suc j) = Suc j" by (simp add: attempt_count_eq)
    with k(3) lt have "Dir_exists rt s (findName b e (Suc j))" by metis
    then show "Dir_exists rt s (b @ copy_suffix j @ e)" by (simp add: findName_copy_suffix)
  qed
  with name k(2) ret k(1) show ?thesis by (metis option.inject)
qed

lemma copy_suffix_never_index_one: "copy_suffix i \<noteq> ''-copy-1''"
proof (cases "i = 0")
  case True
  then show ?thesis by (simp add: copy_suffix_def)
next
  case False
  show ?thesis
  proof
    assume "copy_suffix i = ''-copy-1''"
    with False have "number_to_string (i + 1) = ''1''" by (simp add: copy_suffix_def)
    then have "i + 1 = 1" by (rule number_to_string_one)
    with False show False by simp
  qed
qed

text \<open>
  Claim C2, as amended.  \<^verbatim>\<open>lastName(baseName, extension)\<close> goes through the passes
  \<open>count = 0, 1, 2, \<dots>\<close>; the name of the pass with count \<open>k\<close> is \<open>baseName\<close>,
  \<open>copy_suffix (k - 1)\<close> and \<open>extension\<close>.  So the first two passes both try
  \<^verbatim>\<open>-copy\<close> and the later ones \<^verbatim>\<open>-copy-2\<close>, \<^verbatim>\<open>-copy-3\<close>, \<open>\<dots>\<close>, with the count
  in decimal (\<open>number_to_string k\<close> reads back as \<open>k\<close>, has digits only and no leading
  zero): the names tried are the suffix sequence of the specification, in its order, no two
  of them equal and none with index 1.  Whenever \<^verbatim>\<open>lastName\<close> returns, it returns the
  first name of the sequence that does not exist, and it does return it when it is among
  the first \<open>2 ^ 53\<close>.  So \<^verbatim>\<open>lastName("a", ".txt")\<close> is \<^verbatim>\<open>a-copy.txt\<close> when that name
  is free, \<^verbatim>\<open>a-copy-2.txt\<close> when only \<^verbatim>\<open>a-copy.txt\<close> is taken, and \<^verbatim>\<open>a-copy-3.txt\<close>
  when those two are taken.
\<close>

theorem lastName_first_unused_of_suffix_sequence:
  "(\<forall>name. Dir_lastName rt s baseName extension = Some name \<longrightarrow>
      (\<exists>i. name = baseName @ copy_suffix i @ extension \<and>
           \<not> Dir_exists rt s name \<and>
           (\<forall>j<i. Dir_exists rt s (baseName @ copy_suffix j @ extension)))) \<and>
   (i < 2 ^ 53 \<and> \<not> Dir_exists rt s (baseName @ copy_suffix i @ extension) \<and>
      (\<forall>j<i. Dir_exists rt s (baseName @ copy_suffix j @ extension)) \<longrightarrow>
      Dir_lastName rt s baseName extension = Some (baseName @ copy_suffix i @ extension)) \<and>
   attempt_count k = min k (2 ^ 53) \<and>
   findName baseName extension (attempt_count k)
     = baseName @ copy_suffix (min k (2 ^ 53) - 1) @ extension \<and>
   findName baseName extension k = baseName @ copy_suffix (k - 1) @ extension \<and>
   findName baseName extension k \<noteq> baseName @ ''-copy-1'' @ extension \<and>
   copy_suffix 0 = ''-copy'' \<and> copy_suffix 1 = ''-copy-2'' \<and> copy_suffix 2 = ''-copy-3'' \<and>
   copy_suffix 9 = ''-copy-10'' \<and> copy_suffix 122 = ''-copy-123'' \<and>
   copy_suffix i \<noteq> ''-copy-1'' \<and>
   (copy_suffix i = copy_suffix j \<longrightarrow> i = j) \<and>
   decimal_value (number_to_string k) = k \<and>
   list_all is_digit (number_to_string k) \<and>
   (0 < k \<longrightarrow> hd (number_to_string k) \<noteq> CHR ''0'') \<and>
   (\<not> Dir_exists rt s ''a-copy.txt'' \<longrightarrow>
      Dir_lastName rt s ''a'' ''.txt'' = Some ''a-copy.txt'') \<and>
   (Dir_exists rt s ''a-copy.txt'' \<and> \<not> Dir_exists rt s ''a-copy-2.txt'' \<longrightarrow>
      Dir_lastName rt s ''a'' ''.txt'' = Some ''a-copy-2.txt'') \<and>
   (Dir_exists rt s ''a-copy.txt'' \<and> Dir_exists rt s ''a-copy-2.txt'' \<and>
      \<not> Dir_exists rt s ''a-copy-3.txt'' \<longrightarrow>
      Dir_lastName rt s ''a'' ''.txt'' = Some ''a-copy-3.txt'')"
proof -
  have result: "\<forall>name. Dir_lastName rt s baseName extension = Some name \<longrightarrow>
      (\<exists>i. name = baseName @ copy_suffix i @ extension \<and>
           \<not> Dir_exists rt s name \<and>
           (\<forall>j<i. Dir_exists rt s (baseName @ copy_suffix j @ extension)))"
    using lastName_result_in_sequence [of rt s baseName extension] by blast
  have first: "i < 2 ^ 53 \<and> \<not> Dir_exists rt s (baseName @ copy_suffix i @ extension) \<and>
      (\<forall>j<i. Dir_exists rt s (baseName @ copy_suffix j @ extension)) \<longrightarrow>
      Dir_lastName rt s baseName extension = Some (baseName @ copy_suffix i @ extension)"
    using lastName_first_of_sequence [of rt s baseName i extension] by blast
  have passes: "attempt_count k = min k (2 ^ 53)"
    "findName baseName extension (attempt_count k)
       = baseName @ copy_suffix (min k (2 ^ 53) - 1) @ extension"
    by (simp_all only: attempt_count_eq findName_copy_suffix)
  have third: "Dir_exists rt s ''a-copy.txt'' \<and> Dir_exists rt s ''a-copy-2.txt'' \<and>
      \<not> Dir_exists rt s ''a-copy-3.txt'' \<longrightarrow>
      Dir_lastName rt s ''a'' ''.txt'' = Some ''a-copy-3.txt''"
  proof
    assume a: "Dir_exists rt s ''a-copy.txt'' \<and> Dir_exists rt s ''a-copy-2.txt'' \<and>
      \<not> Dir_exists rt s ''a-copy-3.txt''"
    have free: "\<not> Dir_exists rt s (''a'' @ copy_suffix 2 @ ''.txt'')"
      using a by (simp add: copy_suffix_values)
    have taken: "\<And>j. j < 2 \<Longrightarrow> Dir_exists rt s (''a'' @ copy_suffix j @ ''.txt'')"
    proof -
      fix j :: nat
      assume "j < 2"
      then have "j = 0 \<or> j = 1" by auto
      then have "copy_suffix j = ''-copy'' \<or> copy_suffix j = ''-copy-2''"
        using copy_suffix_values(1,2) by metis
      with a show "Dir_exists rt s (''a'' @ copy_suffix j @ ''.txt'')"
        by auto
    qed
    have "(2::nat) < 2 ^ 53" by simp
    from lastName_first_of_sequence [OF free taken this]
    show "Dir_lastName rt s ''a'' ''.txt'' = Some ''a-copy-3.txt''"
      by (simp add: copy_suffix_values)
  qed
  have inj: "copy_suffix i = copy_suffix j \<longrightarrow> i = j"
    using copy_suffix_inj by blast
  have lead: "0 < k \<longrightarrow> hd (number_to_string k) \<noteq> CHR ''0''"
    using number_to_string_no_leading_zero by blast
  show ?thesis
    using result first passes findName_copy_suffix [of baseName extension k]
      findName_never_index_one [of baseName extension k]
      copy_suffix_values copy_suffix_never_index_one [of i] inj
      decimal_value_number_to_string [of k] number_to_string_digits [of k] lead
      lastName_a_txt_first [of rt s] lastName_a_txt_second [of rt s] third
    by (intro conjI) blast+
qed

theorem lastName_first_unused_of_suffix_sequence_witness:
  "Dir_exists memory project ''a-copy.txt'' \<and>
   \<not> Dir_exists memory project ''a-copy-2.txt'' \<and>
   Dir_lastName memory project ''a'' ''.txt'' = Some ''a-copy-2.txt'' \<and>
   (\<exists>i. ''a-copy-2.txt'' = ''a'' @ copy_suffix i @ ''.txt'' \<and>
        (\<forall>j<i. Dir_exists memory project (''a'' @ copy_suffix j @ ''.txt''))) \<and>
   \<not> Dir_exists memory project ''my.app/a-copy.txt'' \<and>
   Dir_lastName memory project ''my.app/a'' ''.txt'' = Some ''my.app/a-copy.txt'' \<and>
   findName ''a'' ''.txt'' (attempt_count 3) = ''a-copy-3.txt'' \<and>
   decimal_value (number_to_string 123) = 123"
proof -
  have taken: "Dir_exists memory project ''a-copy.txt''" by code_simp
  have free: "\<not> Dir_exists memory project ''a-copy-2.txt''" by code_simp
  have free': "\<not> Dir_exists memory project ''my.app/a-copy.txt''" by code_simp
  note inst = lastName_first_unused_of_suffix_sequence
    [of memory project "''a''" "''.txt''" 1 3 1]
  note inst' = lastName_first_unused_of_suffix_sequence
    [of memory project "''my.app/a''" "''.txt''" 0 123 0]
  from inst taken free
  have ret: "Dir_lastName memory project ''a'' ''.txt'' = Some ''a-copy-2.txt''" by blast
  from inst ret
  have "\<exists>i. ''a-copy-2.txt'' = ''a'' @ copy_suffix i @ ''.txt'' \<and>
        \<not> Dir_exists memory project ''a-copy-2.txt'' \<and>
        (\<forall>j<i. Dir_exists memory project (''a'' @ copy_suffix j @ ''.txt''))"
    by blast
  then have seq: "\<exists>i. ''a-copy-2.txt'' = ''a'' @ copy_suffix i @ ''.txt'' \<and>
        (\<forall>j<i. Dir_exists memory project (''a'' @ copy_suffix j @ ''.txt''))"
    by blast
  from inst have "findName ''a'' ''.txt'' (attempt_count 3)
                    = ''a'' @ copy_suffix (min 3 (2 ^ 53) - 1) @ ''.txt''"
    by blast
  moreover from inst have "copy_suffix 2 = ''-copy-3''" by blast
  ultimately have three: "findName ''a'' ''.txt'' (attempt_count 3) = ''a-copy-3.txt''"
    by simp
  from inst' have zero: "copy_suffix 0 = ''-copy''" by blast
  have "(0::nat) < 2 ^ 53" by simp
  with inst' free' zero
  have other: "Dir_lastName memory project ''my.app/a'' ''.txt'' = Some ''my.app/a-copy.txt''"
    by simp
  from inst' have dec: "decimal_value (number_to_string 123) = 123" by blast
  from taken free ret seq free' other three dec show ?thesis by blast
qed

text \<open>
  As the specification states it, with index 2 used on the second attempt, the property
  fails: on \<open>project\<close>, where \<^verbatim>\<open>a-copy.txt\<close> exists, the second pass has count 1 and
  tries \<^verbatim>\<open>a-copy.txt\<close> again; \<^verbatim>\<open>a-copy-2.txt\<close> is the name of the third pass.
\<close>

theorem lastName_second_pass_counterexample:
  "Dir_exists memory project (findName ''a'' ''.txt'' 0) \<and>
   count_incr 0 = 1 \<and>
   findName ''a'' ''.txt'' (count_incr 0) = ''a-copy.txt'' \<and>
   findName ''a'' ''.txt'' (count_incr 0) \<noteq> ''a-copy-2.txt'' \<and>
   count_incr (count_incr 0) = 2 \<and>
   findName ''a'' ''.txt'' (count_incr (count_incr 0)) = ''a-copy-2.txt''"
proof -
  have c1: "count_incr 0 = 1" and c2: "count_incr 1 = 2"
    by (simp_all add: count_incr_def)
  have "Dir_exists memory project (findName ''a'' ''.txt'' 0)"
    unfolding findName_def by code_simp
  then show ?thesis
    unfolding c1 c2 by (simp add: findName_def number_to_string_two)
qed



section \<open>Dir.list\<close>

lemma Dir_list_never_throws: "Dir_list n rt s dirPath listSubPath \<noteq> Some (Inl err)"
  by (cases n) (simp_all split: sum.splits option.splits)

lemma list_items_never_throws:
  "list_items n rt s dirPath listSubPath items contents \<noteq> Some (Inl err)"
proof (induction items arbitrary: contents)
  case Nil
  show ?case by simp
next
  case (Cons item items)
  show ?case
    using Cons.IH Dir_list_never_throws [of n rt s "dirPath @ ''/'' @ item" True]
    by (auto simp: Let_def split: option.splits sum.splits)
qed

text \<open>A listing that does not descend needs one level of fuel and always returns.\<close>

lemma list_items_flat_total:
  "\<exists>r. list_items n rt s dirPath False items contents = Some (Inr r)"
  by (induction items arbitrary: contents) (simp_all add: Let_def)

lemma Dir_list_flat_total: "\<exists>entries. Dir_list (Suc n) rt s dirPath False = Some (Inr entries)"
proof (cases "fs_readdir rt s dirPath")
  case (Inl e)
  then show ?thesis by simp
next
  case (Inr its)
  from list_items_flat_total [of n rt s dirPath its "[]"] obtain r where
    "list_items n rt s dirPath False its [] = Some (Inr r)" by blast
  with Inr show ?thesis by simp
qed

lemma list_items_flat_fuel:
  "list_items n rt s dirPath False items contents = list_items 0 rt s dirPath False items contents"
  by (induction items arbitrary: contents) (simp_all add: Let_def)

lemma Dir_list_flat_fuel:
  "Dir_list (Suc n) rt s dirPath False = Dir_list (Suc 0) rt s dirPath False"
  by (simp add: list_items_flat_fuel [of n] split: sum.splits)

text \<open>More fuel does not change a result.\<close>

lemma Dir_list_fuel_mono:
  "Dir_list n rt s dirPath listSubPath = Some r \<Longrightarrow>
     Dir_list (Suc n) rt s dirPath listSubPath = Some r"
  "list_items n rt s dirPath listSubPath items contents = Some r' \<Longrightarrow>
     list_items (Suc n) rt s dirPath listSubPath items contents = Some r'"
proof (induction n rt s dirPath listSubPath and n rt s dirPath listSubPath items contents
    arbitrary: r and r' rule: Dir_list_list_items.induct)
  case (1 rt s dirPath listSubPath)
  then show ?case by simp
next
  case (2 n rt s dirPath listSubPath)
  show ?case
  proof (cases "fs_readdir rt s dirPath")
    case (Inl e)
    with "2.prems" show ?thesis by simp
  next
    case (Inr items)
    with "2.prems" obtain x where
      x: "list_items n rt s dirPath listSubPath items [] = Some x"
      by (auto split: option.splits)
    from "2.IH" [OF Inr x]
    have "list_items (Suc n) rt s dirPath listSubPath items [] = Some x" .
    with "2.prems" Inr x show ?thesis by simp
  qed
next
  case (3 n rt s dirPath listSubPath contents)
  then show ?case by simp
next
  case (4 n rt s dirPath listSubPath item items contents)
  let ?fp = "dirPath @ ''/'' @ item"
  show ?case
  proof (cases "listSubPath \<and> Dir_check rt s ?fp")
    case True
    with "4.prems" obtain sub where
      sub: "Dir_list n rt s ?fp True = Some (Inr sub)" and
      rest: "list_items n rt s dirPath listSubPath items
               (contents @ [Entry ?fp False (path_parse_name rt ?fp) None None (Some sub)])
               = Some r'"
      using Dir_list_never_throws [of n rt s ?fp True]
      by (auto simp: Let_def split: option.splits sum.splits)
    from "4.IH"(1) [OF refl refl refl refl refl refl refl True sub]
    have sub': "Dir_list (Suc n) rt s ?fp True = Some (Inr sub)" .
    from "4.IH"(2) [OF refl refl refl refl refl refl refl True sub refl] rest True
    have rest': "list_items (Suc n) rt s dirPath listSubPath items
               (contents @ [Entry ?fp False (path_parse_name rt ?fp) None None (Some sub)])
               = Some r'"
      by simp
    from True sub' rest' show ?thesis
      by (simp add: Let_def del: Dir_list.simps)
  next
    case False
    with "4.prems" have
      rest: "list_items n rt s dirPath listSubPath items
               (contents @ [Entry ?fp (\<not> Dir_check rt s ?fp) (path_parse_name rt ?fp)
                  (if \<not> Dir_check rt s ?fp then Some (path_extname rt ?fp) else None)
                  (if \<not> Dir_check rt s ?fp then Some (path_basename rt ?fp) else None) None])
               = Some r'"
      by (auto simp: Let_def)
    from "4.IH"(3) [OF refl refl refl refl refl refl refl False rest]
    show ?thesis using False by (auto simp: Let_def)
  qed
qed

text \<open>
  Claim C7.  \<^verbatim>\<open>Dir.list\<close> never throws.  When the enumeration (\<^verbatim>\<open>readdir\<close>) fails it
  returns the empty sequence, which is also what it returns for a directory with no
  entries: the two cannot be told apart.  Without \<^verbatim>\<open>listSubPath\<close> it always returns.
\<close>

theorem list_errors_are_empty:
  "Dir_list n rt s dirPath listSubPath \<noteq> Some (Inl err) \<and>
   (fs_readdir rt s dirPath = Inl e \<longrightarrow>
      Dir_list (Suc n) rt s dirPath listSubPath = Some (Inr [])) \<and>
   (fs_readdir rt s dirPath = Inr [] \<longrightarrow>
      Dir_list (Suc n) rt s dirPath listSubPath = Some (Inr [])) \<and>
   (\<exists>entries. Dir_list (Suc n) rt s dirPath False = Some (Inr entries))"
  using Dir_list_never_throws [of n rt s dirPath listSubPath err]
    Dir_list_flat_total [of n rt s dirPath]
  by simp

theorem list_errors_are_empty_witness:
  "fs_readdir memory project ''missing'' = Inl ENOENT \<and>
   Dir_list (Suc 0) memory project ''missing'' True = Some (Inr []) \<and>
   fs_readdir memory project ''empty'' = Inr [] \<and>
   Dir_list (Suc 0) memory project ''empty'' True = Some (Inr []) \<and>
   fs_readdir memory project ''a-copy.txt'' = Inl ENOTDIR \<and>
   Dir_list (Suc 0) memory project ''a-copy.txt'' False = Some (Inr [])"
proof -
  have missing: "fs_readdir memory project ''missing'' = Inl ENOENT" by code_simp
  have empty: "fs_readdir memory project ''empty'' = Inr []" by code_simp
  have notdir: "fs_readdir memory project ''a-copy.txt'' = Inl ENOTDIR" by code_simp
  from list_errors_are_empty [of 0 memory project "''missing''" True _ ENOENT] missing
  have 1: "Dir_list (Suc 0) memory project ''missing'' True = Some (Inr [])" by blast
  from list_errors_are_empty [of 0 memory project "''empty''" True] empty
  have 2: "Dir_list (Suc 0) memory project ''empty'' True = Some (Inr [])" by blast
  from list_errors_are_empty [of 0 memory project "''a-copy.txt''" False _ ENOTDIR] notdir
  have 3: "Dir_list (Suc 0) memory project ''a-copy.txt'' False = Some (Inr [])" by blast
  from missing empty notdir 1 2 3 show ?thesis by blast
qed

lemma list_items_Cons_inv:
  assumes "list_items n rt s dirPath listSubPath (item # items) contents = Some (Inr result)"
  shows "\<exists>E. list_items n rt s dirPath listSubPath items (contents @ [E]) = Some (Inr result) \<and>
             (\<not> Dir_check rt s (dirPath @ ''/'' @ item) \<longrightarrow>
                E = Entry (dirPath @ ''/'' @ item) True
                      (path_parse_name rt (dirPath @ ''/'' @ item))
                      (Some (path_extname rt (dirPath @ ''/'' @ item)))
                      (Some (path_basename rt (dirPath @ ''/'' @ item))) None)"
  using assms by (auto simp: Let_def split: if_splits option.splits sum.splits)

text \<open>
  The loop appends one entry per item, in order; the entry of an item that
  \<^verbatim>\<open>check\<close> does not report as a directory is a file entry.
\<close>

lemma list_items_entries:
  assumes "list_items n rt s dirPath listSubPath items contents = Some (Inr result)"
  shows "length result = length contents + length items \<and>
         take (length contents) result = contents \<and>
         (\<forall>i<length items. \<not> Dir_check rt s (dirPath @ ''/'' @ items ! i) \<longrightarrow>
            result ! (length contents + i) =
              Entry (dirPath @ ''/'' @ items ! i) True
                (path_parse_name rt (dirPath @ ''/'' @ items ! i))
                (Some (path_extname rt (dirPath @ ''/'' @ items ! i)))
                (Some (path_basename rt (dirPath @ ''/'' @ items ! i))) None)"
  using assms
proof (induction items arbitrary: contents)
  case Nil
  then show ?case by simp
next
  case (Cons item items)
  from list_items_Cons_inv [OF Cons.prems] obtain E where
    rec: "list_items n rt s dirPath listSubPath items (contents @ [E]) = Some (Inr result)" and
    E: "\<not> Dir_check rt s (dirPath @ ''/'' @ item) \<longrightarrow>
          E = Entry (dirPath @ ''/'' @ item) True
                (path_parse_name rt (dirPath @ ''/'' @ item))
                (Some (path_extname rt (dirPath @ ''/'' @ item)))
                (Some (path_basename rt (dirPath @ ''/'' @ item))) None"
    by blast
  from Cons.IH [OF rec] have
    len: "length result = length (contents @ [E]) + length items" and
    pre: "take (length (contents @ [E])) result = contents @ [E]" and
    rest: "\<forall>i<length items. \<not> Dir_check rt s (dirPath @ ''/'' @ items ! i) \<longrightarrow>
            result ! (length (contents @ [E]) + i) =
              Entry (dirPath @ ''/'' @ items ! i) True
                (path_parse_name rt (dirPath @ ''/'' @ items ! i))
                (Some (path_extname rt (dirPath @ ''/'' @ items ! i)))
                (Some (path_basename rt (dirPath @ ''/'' @ items ! i))) None"
    by blast+
  have len': "length result = length contents + length (item # items)"
    using len by simp
  have pre': "take (length contents) result = contents"
  proof -
    have "take (length contents) result
            = take (length contents) (take (length (contents @ [E])) result)"
      by (simp add: min_def)
    also have "\<dots> = contents" by (simp only: pre) simp
    finally show ?thesis .
  qed
  have here: "result ! length contents = E"
  proof -
    have "result ! length contents = take (length (contents @ [E])) result ! length contents"
      by simp
    also have "\<dots> = E" by (simp only: pre) simp
    finally show ?thesis .
  qed
  have every: "\<forall>i<length (item # items).
            \<not> Dir_check rt s (dirPath @ ''/'' @ (item # items) ! i) \<longrightarrow>
            result ! (length contents + i) =
              Entry (dirPath @ ''/'' @ (item # items) ! i) True
                (path_parse_name rt (dirPath @ ''/'' @ (item # items) ! i))
                (Some (path_extname rt (dirPath @ ''/'' @ (item # items) ! i)))
                (Some (path_basename rt (dirPath @ ''/'' @ (item # items) ! i))) None"
  proof (intro allI impI)
    fix i
    assume i: "i < length (item # items)"
       and nd: "\<not> Dir_check rt s (dirPath @ ''/'' @ (item # items) ! i)"
    show "result ! (length contents + i) =
              Entry (dirPath @ ''/'' @ (item # items) ! i) True
                (path_parse_name rt (dirPath @ ''/'' @ (item # items) ! i))
                (Some (path_extname rt (dirPath @ ''/'' @ (item # items) ! i)))
                (Some (path_basename rt (dirPath @ ''/'' @ (item # items) ! i))) None"
    proof (cases i)
      case 0
      with nd E here show ?thesis by simp
    next
      case (Suc i')
      with i nd rest show ?thesis by simp
    qed
  qed
  from len' pre' every show ?case by blast
qed

text \<open>
  Claim C9.  \<^verbatim>\<open>Dir.check\<close> is true only when \<^verbatim>\<open>stat\<close> succeeds and reports a
  directory: it is false for a path whose \<^verbatim>\<open>stat\<close> fails, as it is for a regular file.  So in the result of \<^verbatim>\<open>Dir.list\<close> the entry of a child whose \<^verbatim>\<open>stat\<close>
  fails is a file entry: \<^verbatim>\<open>file\<close> is true, \<^verbatim>\<open>extension\<close> and \<^verbatim>\<open>nameWithExtension\<close>
  are set (to what \<^verbatim>\<open>path.extname\<close> and \<^verbatim>\<open>path.basename\<close> give), and it has no
  \<^verbatim>\<open>sub\<close>.
\<close>

theorem list_stat_failure_is_file:
  assumes listed: "Dir_list (Suc n) rt s dirPath listSubPath = Some (Inr entries)"
      and items: "fs_readdir rt s dirPath = Inr items"
      and i: "i < length items"
      and stat: "fs_stat_isDirectory rt s (dirPath @ ''/'' @ items ! i) = Inl e"
  shows "(Dir_check rt s q \<longleftrightarrow> fs_stat_isDirectory rt s q = Inr True) \<and>
         \<not> Dir_check rt s (dirPath @ ''/'' @ items ! i) \<and>
         length entries = length items \<and>
         entries ! i =
           Entry (dirPath @ ''/'' @ items ! i) True
             (path_parse_name rt (dirPath @ ''/'' @ items ! i))
             (Some (path_extname rt (dirPath @ ''/'' @ items ! i)))
             (Some (path_basename rt (dirPath @ ''/'' @ items ! i))) None"
proof -
  have check: "\<not> Dir_check rt s (dirPath @ ''/'' @ items ! i)"
    using stat by (simp add: Dir_check_def)
  have "list_items n rt s dirPath listSubPath items [] = Some (Inr entries)"
    using listed items list_items_never_throws [of n rt s dirPath listSubPath items "[]"]
    by (auto split: option.splits sum.splits)
  moreover have "Dir_check rt s q \<longleftrightarrow> fs_stat_isDirectory rt s q = Inr True"
    by (simp add: Dir_check_def split: sum.splits)
  ultimately show ?thesis
    using list_items_entries [of n rt s dirPath listSubPath items "[]" entries] i check
    by simp
qed

theorem list_stat_failure_is_file_witness:
  "fs_readdir memory project_no_search ''my.app'' = Inr [''my-app'', ''notes.txt'', ''lib''] \<and>
   fs_stat_isDirectory memory project ''my.app/lib'' = Inr True \<and>
   fs_stat_isDirectory memory project_no_search ''my.app/lib'' = Inl EACCES \<and>
   Dir_list (Suc 0) memory project_no_search ''my.app'' True =
     Some (Inr [Entry ''my.app/my-app'' True ''my-app'' (Some []) (Some ''my-app'') None,
                Entry ''my.app/notes.txt'' True ''notes'' (Some ''.txt'') (Some ''notes.txt'') None,
                Entry ''my.app/lib'' True ''lib'' (Some []) (Some ''lib'') None]) \<and>
   [Entry ''my.app/my-app'' True ''my-app'' (Some []) (Some ''my-app'') None,
    Entry ''my.app/notes.txt'' True ''notes'' (Some ''.txt'') (Some ''notes.txt'') None,
    Entry ''my.app/lib'' True ''lib'' (Some []) (Some ''lib'') None] ! 2 =
     Entry ''my.app/lib'' True (path_parse_name memory ''my.app/lib'')
       (Some (path_extname memory ''my.app/lib'')) (Some (path_basename memory ''my.app/lib''))
       None"
proof -
  have items: "fs_readdir memory project_no_search ''my.app''
                 = Inr [''my-app'', ''notes.txt'', ''lib'']"
    by code_simp
  have dir: "fs_stat_isDirectory memory project ''my.app/lib'' = Inr True" by code_simp
  have stat: "fs_stat_isDirectory memory project_no_search
                (''my.app'' @ ''/'' @ [''my-app'', ''notes.txt'', ''lib''] ! 2) = Inl EACCES"
    by code_simp
  have stat': "fs_stat_isDirectory memory project_no_search ''my.app/lib'' = Inl EACCES"
    by code_simp
  have listed: "Dir_list (Suc 0) memory project_no_search ''my.app'' True =
     Some (Inr [Entry ''my.app/my-app'' True ''my-app'' (Some []) (Some ''my-app'') None,
                Entry ''my.app/notes.txt'' True ''notes'' (Some ''.txt'') (Some ''notes.txt'') None,
                Entry ''my.app/lib'' True ''lib'' (Some []) (Some ''lib'') None])"
    by code_simp
  have i: "2 < length [''my-app'', ''notes.txt'', ''lib'']" by simp
  from list_stat_failure_is_file [OF listed items i stat]
  have "[Entry ''my.app/my-app'' True ''my-app'' (Some []) (Some ''my-app'') None,
         Entry ''my.app/notes.txt'' True ''notes'' (Some ''.txt'') (Some ''notes.txt'') None,
         Entry ''my.app/lib'' True ''lib'' (Some []) (Some ''lib'') None] ! 2 =
     Entry ''my.app/lib'' True (path_parse_name memory ''my.app/lib'')
       (Some (path_extname memory ''my.app/lib'')) (Some (path_basename memory ''my.app/lib''))
       None"
    by simp
  with items dir stat' listed show ?thesis by blast
qed

section \<open>File.copy and File.rename\<close>

text \<open>
  \<^verbatim>\<open>File.read\<close> and \<^verbatim>\<open>File.create\<close> catch every error themselves, so the \<^verbatim>\<open>try\<close> block
  of \<^verbatim>\<open>File.copy\<close> never throws and its handler, the only \<^verbatim>\<open>return false\<close>, is never
  entered.  What \<^verbatim>\<open>File.copy\<close> returns depends on the read alone.
\<close>

lemma File_copy_try_never_throws: "fst (File_copy_try rt s oldFilePath newFilePath) \<noteq> Inl err"
  by (simp add: File_copy_try_def split: read_result.splits prod.splits)

lemma File_copy_returns:
  "fst (File_copy rt s oldFilePath newFilePath) =
     (case fs_readFile rt s oldFilePath of Inl err \<Rightarrow> None | Inr content \<Rightarrow> Some True)"
  by (simp add: File_copy_def File_copy_try_def File_read_def Let_def
      split: sum.splits prod.splits)

lemma File_copy_never_false: "fst (File_copy rt s oldFilePath newFilePath) \<noteq> Some False"
  by (simp add: File_copy_returns split: sum.splits)

text \<open>
  Claim C4.  The specification has \<^verbatim>\<open>File.copy\<close> return false on any read or write
  failure.  On the disk \<open>project\<close> it does not: reading the missing \<^verbatim>\<open>missing.txt\<close> fails
  and the result is \<^verbatim>\<open>undefined\<close>; writing to \<^verbatim>\<open>nowhere/notes.txt\<close> fails (there is no
  directory \<^verbatim>\<open>nowhere\<close>) and the result is \<^verbatim>\<open>true\<close>, with nothing written.
\<close>

theorem File_copy_failures_not_false:
  "fs_readFile memory project ''missing.txt'' = Inl ENOENT \<and>
   File_copy memory project ''missing.txt'' ''copy.txt'' = (None, project) \<and>
   fs_readFile memory project ''my.app/notes.txt'' = Inr ''todo'' \<and>
   fs_writeFile memory project ''nowhere/notes.txt'' ''todo'' = (Some ENOENT, project) \<and>
   File_copy memory project ''my.app/notes.txt'' ''nowhere/notes.txt'' = (Some True, project)"
  by code_simp

text \<open>
  \<^verbatim>\<open>File.rename\<close> awaits \<^verbatim>\<open>dir.rename\<close> and drops the boolean it returns: the flag
  \<^verbatim>\<open>renamed\<close> tells whether the directory check passed, nothing else.
\<close>

lemma File_rename_flag:
  "renamed (fst (File_rename rt s oldFile newFile)) = (\<not> Dir_check rt s oldFile)"
  by (simp add: File_rename_def split: prod.splits)

text \<open>
  Claim C5.  The specification has \<^verbatim>\<open>File.rename\<close> report a failure whenever the
  underlying rename fails, and so does the comment above the method.  On the disk \<open>project\<close> the rename of the missing \<^verbatim>\<open>missing.txt\<close> fails
  with \<^verbatim>\<open>ENOENT\<close> and changes nothing, and \<^verbatim>\<open>File.rename\<close> returns
  \<^verbatim>\<open>{renamed: true}\<close>.  The directory check does give a failure result.
\<close>

theorem File_rename_reports_failed_rename_as_renamed:
  "fs_rename memory project ''missing.txt'' ''renamed.txt'' = (Some ENOENT, project) \<and>
   File_rename memory project ''missing.txt'' ''renamed.txt''
     = (Rename_result True None, project) \<and>
   File_rename memory project ''my.app'' ''renamed''
     = (Rename_result False (Some (Error ''It is not a valid file.'')), project)"
  by code_simp

section \<open>Dir.copy\<close>

text \<open>
  For a source path of plain characters and a destination path without a dollar sign, the
  pattern replacement is the literal one.
\<close>

lemma parse_quant_plain:
  "list_all plain_char cs \<Longrightarrow>
   parse_quant a cs = Inr ((a, Once) # map (\<lambda>c. (Lit c, Once)) cs)"
proof (induction cs arbitrary: a)
  case Nil
  show ?case by simp
next
  case (Cons q rest)
  then have q: "plain_char q" and rest: "list_all plain_char rest" by simp_all
  from q have "parse_pattern (q # rest) = parse_quant (Lit q) rest"
    by (simp add: plain_char_def)
  with Cons.IH [OF rest, of "Lit q"] q show ?case
    by (simp add: plain_char_def)
qed

lemma parse_pattern_plain:
  "list_all plain_char cs \<Longrightarrow> parse_pattern cs = Inr (map (\<lambda>c. (Lit c, Once)) cs)"
proof (cases cs)
  case Nil
  then show ?thesis by simp
next
  case (Cons c rest)
  assume "list_all plain_char cs"
  with Cons have c: "plain_char c" and rest: "list_all plain_char rest" by simp_all
  from c have "parse_pattern (c # rest) = parse_quant (Lit c) rest"
    by (simp add: plain_char_def)
  with parse_quant_plain [OF rest, of "Lit c"] Cons show ?thesis by simp
qed

lemma match_here_plain:
  "match_here (map (\<lambda>c. (Lit c, Once)) p) s
     = (if take (length p) s = p then Some (length p) else None)"
proof (induction p arbitrary: s)
  case Nil
  show ?case by simp
next
  case (Cons l p)
  show ?case
  proof (cases s)
    case Nil
    then show ?thesis by simp
  next
    case (Cons c cs)
    with Cons.IH [of cs] show ?thesis by (auto simp: atom_matches_def)
  qed
qed

lemma expand_plain: "CHR ''$'' \<notin> set r \<Longrightarrow> expand r matched before after = r"
  by (induction r matched before after rule: expand.induct) auto

lemma replace_scan_plain:
  assumes "CHR ''$'' \<notin> set r"
  shows "replace_scan (map (\<lambda>c. (Lit c, Once)) p) r before s = literal_replace_all p r s"
proof -
  define re where "re = map (\<lambda>c. (Lit c, Once)) p"
  have m: "\<And>s. match_here re s = (if take (length p) s = p then Some (length p) else None)"
    unfolding re_def by (rule match_here_plain)
  have "replace_scan re r before s = literal_replace_all p r s"
  proof (induction "length s" arbitrary: s before rule: less_induct)
    case less
    show ?case
    proof (cases s)
      case Nil
      then show ?thesis by (simp add: m expand_plain [OF assms])
    next
      case (Cons c cs)
      have tail: "\<And>b. replace_scan re r b cs = literal_replace_all p r cs"
        using less [of cs] Cons by simp
      show ?thesis
      proof (cases "take (length p) (c # cs) = p")
        case False
        then have "p \<noteq> []" by auto
        with False Cons tail show ?thesis by (simp add: m)
      next
        case True
        show ?thesis
        proof (cases p)
          case Nil
          with Cons tail show ?thesis by (simp add: m expand_plain [OF assms])
        next
          case pc: (Cons l p')
          have "length (drop (length p') cs) < length s" using Cons by simp
          from less [OF this]
          have deeper: "\<And>b. replace_scan re r b (drop (length p') cs)
                   = literal_replace_all p r (drop (length p') cs)" .
          have here: "match_here re (c # cs) = Some (Suc (length p'))"
            using True pc by (simp add: m)
          have "replace_scan re r before (c # cs)
                  = r @ literal_replace_all p r (drop (length p') cs)"
            by (simp add: here deeper expand_plain [OF assms])
          with True Cons pc show ?thesis by simp
        qed
      qed
    qed
  qed
  then show ?thesis by (simp add: re_def)
qed

lemma replace_plain_is_literal:
  assumes "list_all plain_char pattern" and "CHR ''$'' \<notin> set replacement"
  shows "regexp_replace_g memory pattern subject replacement
           = Inr (literal_replace_all pattern replacement subject)"
  by (simp add: memory_def m_replace_g_def parse_pattern_plain [OF assms(1)]
      replace_scan_plain [OF assms(2)])

text \<open>
  Claim C1.  The specification has the destination of an entry be its path with the source
  path replaced as literal text.  The source path is handed to \<^verbatim>\<open>new RegExp\<close>, which reads
  it as a pattern.  Copying the directory \<^verbatim>\<open>my.app\<close> of \<open>project\<close> to \<^verbatim>\<open>out\<close>: the
  entry \<^verbatim>\<open>my.app/my-app\<close> matches the pattern \<^verbatim>\<open>my.app\<close> twice, its destination is
  \<^verbatim>\<open>out/out\<close> and not \<^verbatim>\<open>out/my-app\<close>, and that is where the file lands.  With the
  source path \<^verbatim>\<open>c++\<close> the constructor throws.
\<close>

theorem copy_reads_source_path_as_pattern:
  "regexp_replace_g memory ''my.app'' ''my.app/my-app'' ''out'' = Inr ''out/out'' \<and>
   regexp_replace_g memory ''c++'' ''c++/main.cc'' ''out'' = Inl (SyntaxError ''Nothing to repeat'') \<and>
   (case Dir_copy 2 memory project ''my.app'' (Some ''out'') of
      Some (Inr True, d) \<Rightarrow>
        fs_readFile memory d ''out/out'' = Inr ''run'' \<and>
        fs_access memory d ''out/my-app'' = Some ENOENT \<and>
        fs_readFile memory d ''out/lib/util.js'' = Inr ''export''
    | _ \<Rightarrow> False)"
  by code_simp

lemma copy_items_true:
  "copy_items n rt s ofPath toPath items = Some (Inr r, s') \<Longrightarrow> r"
proof (induction items arbitrary: s)
  case Nil
  then show ?case by simp
next
  case (Cons item rest)
  then show ?case
    by (auto simp: Let_def split: sum.splits if_splits option.splits prod.splits)
qed

text \<open>More fuel does not change a result of \<^verbatim>\<open>Dir.copy\<close> either.\<close>

lemma copy_items_fuel_step:
  assumes deeper: "\<And>s ofPath toPathArg r.
      Dir_copy n rt s ofPath toPathArg = Some r \<Longrightarrow> Dir_copy (Suc n) rt s ofPath toPathArg = Some r"
  shows "copy_items n rt s ofPath toPath items = Some r \<Longrightarrow>
         copy_items (Suc n) rt s ofPath toPath items = Some r"
proof (induction items arbitrary: s)
  case Nil
  then show ?case by simp
next
  case (Cons item rest)
  show ?case
  proof (cases "regexp_replace_g rt ofPath (info_path item) toPath")
    case (Inl err)
    with Cons.prems show ?thesis by simp
  next
    case (Inr after)
    show ?thesis
    proof (cases "info_file item")
      case True
      obtain v s' where fc: "File_copy rt s (info_path item) after = (v, s')"
        by (cases "File_copy rt s (info_path item) after")
      from Cons.prems Inr True fc have "copy_items n rt s' ofPath toPath rest = Some r"
        by simp
      from Cons.IH [OF this] Inr True fc show ?thesis by simp
    next
      case False
      show ?thesis
      proof (cases "Dir_copy n rt s (info_path item) (Some after)")
        case None
        with Cons.prems Inr False show ?thesis by simp
      next
        case (Some x)
        note sub = deeper [OF Some]
        obtain a s' where x: "x = (a, s')" by (cases x)
        show ?thesis
        proof (cases a)
          case (Inl err)
          with Cons.prems Inr False Some sub x show ?thesis
            by (auto simp del: Dir_copy.simps)
        next
          case (Inr ok)
          with Cons.prems \<open>regexp_replace_g rt ofPath (info_path item) toPath = Inr after\<close>
            False Some x
          have "copy_items n rt s' ofPath toPath rest = Some r" by simp
          from Cons.IH [OF this]
            \<open>regexp_replace_g rt ofPath (info_path item) toPath = Inr after\<close>
            False sub x Inr
          show ?thesis by (simp del: Dir_copy.simps)
        qed
      qed
    qed
  qed
qed

lemma Dir_copy_fuel_mono:
  "Dir_copy n rt s ofPath toPathArg = Some r \<Longrightarrow> Dir_copy (Suc n) rt s ofPath toPathArg = Some r"
proof (induction n arbitrary: s ofPath toPathArg r)
  case 0
  then show ?case by simp
next
  case (Suc n)
  have items: "\<And>s ofPath toPath items r.
      copy_items n rt s ofPath toPath items = Some r \<Longrightarrow>
      copy_items (Suc n) rt s ofPath toPath items = Some r"
    by (rule copy_items_fuel_step) (rule Suc.IH)
  let ?target = "if toPathArg = None \<or> toPathArg = Some []
                 then Dir_lastName rt s ofPath [] else toPathArg"
  show ?case
  proof (cases ?target)
    case None
    with Suc.prems show ?thesis by simp
  next
    case (Some toPath)
    let ?s1 = "if \<not> Dir_exists rt s toPath then snd (Dir_create rt s toPath) else s"
    show ?thesis
    proof (cases "Dir_list (Suc 0) rt ?s1 ofPath False")
      case None
      with Suc.prems Some show ?thesis
        by (simp add: Let_def del: Dir_list.simps copy_items.simps)
    next
      case listed: (Some l)
      show ?thesis
      proof (cases l)
        case (Inl err)
        with Suc.prems Some listed show ?thesis
          by (simp add: Let_def del: Dir_list.simps copy_items.simps)
      next
        case (Inr copies)
        with Suc.prems Some listed
        have "copy_items n rt ?s1 ofPath toPath copies = Some r"
          by (simp add: Let_def del: Dir_list.simps copy_items.simps)
        then have "copy_items (Suc n) rt ?s1 ofPath toPath copies = Some r"
          by (rule items)
        with Some listed Inr show ?thesis
          by (simp add: Let_def del: Dir_list.simps copy_items.simps)
      qed
    qed
  qed
qed

text \<open>
  Claim C6.  Whenever \<^verbatim>\<open>Dir.copy\<close> returns, it returns \<^verbatim>\<open>true\<close>: the results of the file
  copies and of the calls on subdirectories are dropped, the only value it returns is the
  \<^verbatim>\<open>true\<close> after the loop.
\<close>

theorem copy_returns_true:
  "Dir_copy n rt s ofPath toPathArg = Some (Inr r, s') \<Longrightarrow> r = True"
proof (cases n)
  case 0
  assume "Dir_copy n rt s ofPath toPathArg = Some (Inr r, s')"
  with 0 show ?thesis by simp
next
  case (Suc m)
  assume "Dir_copy n rt s ofPath toPathArg = Some (Inr r, s')"
  with Suc show ?thesis
    by (auto simp: Let_def split: option.splits sum.splits if_splits dest: copy_items_true)
qed

text \<open>
  The witness is a copy in which the one file copy fails: \<^verbatim>\<open>empty\<close> is write-protected,
  \<^verbatim>\<open>empty/util.js\<close> cannot be written, the disk is left as it was.
\<close>

theorem copy_returns_true_witness:
  "fs_writeFile memory project_empty_locked ''empty/util.js'' ''export''
     = (Some EACCES, project_empty_locked) \<and>
   Dir_copy 2 memory project_empty_locked ''my.app/lib'' (Some ''empty'')
     = Some (Inr True, project_empty_locked) \<and>
   fs_access memory project_empty_locked ''empty/util.js'' = Some ENOENT"
proof -
  have w: "fs_writeFile memory project_empty_locked ''empty/util.js'' ''export''
             = (Some EACCES, project_empty_locked)"
    by code_simp
  have a: "fs_access memory project_empty_locked ''empty/util.js'' = Some ENOENT"
    by code_simp
  have state: "map_option snd (Dir_copy 2 memory project_empty_locked ''my.app/lib'' (Some ''empty''))
                 = Some project_empty_locked"
    by code_simp
  have returned: "map_option (isl \<circ> fst)
                    (Dir_copy 2 memory project_empty_locked ''my.app/lib'' (Some ''empty''))
                    = Some False"
    by code_simp
  have "\<exists>r. Dir_copy 2 memory project_empty_locked ''my.app/lib'' (Some ''empty'')
              = Some (Inr r, project_empty_locked)"
  proof (cases "Dir_copy 2 memory project_empty_locked ''my.app/lib'' (Some ''empty'')")
    case None
    with state show ?thesis by simp
  next
    case (Some x)
    obtain a d where x: "x = (a, d)" by (cases x)
    from Some x state have d: "d = project_empty_locked" by simp
    from Some x returned have "\<not> isl a" by simp
    then obtain r where "a = Inr r" by (cases a) auto
    with Some x d show ?thesis by simp
  qed
  then obtain r where
    run: "Dir_copy 2 memory project_empty_locked ''my.app/lib'' (Some ''empty'')
            = Some (Inr r, project_empty_locked)"
    by blast
  from copy_returns_true [OF run] run
  have "Dir_copy 2 memory project_empty_locked ''my.app/lib'' (Some ''empty'')
          = Some (Inr True, project_empty_locked)"
    by simp
  with w a show ?thesis by blast
qed

text \<open>
  Claim C10, as amended.  When \<^verbatim>\<open>destPath\<close> is given and does not exist, and the listing
  of \<^verbatim>\<open>sourcePath\<close> fails, \<^verbatim>\<open>Dir.copy\<close> makes one \<^verbatim>\<open>mkdir(destPath)\<close>, copies nothing and
  returns \<^verbatim>\<open>true\<close>: the disk it leaves is the one that \<^verbatim>\<open>mkdir\<close> left, whether the
  \<^verbatim>\<open>mkdir\<close> succeeded or not.
\<close>

theorem copy_of_unlistable_source:
  assumes "toPath \<noteq> []"
      and "\<not> Dir_exists rt s toPath"
      and "fs_readdir rt (snd (fs_mkdir rt s toPath)) ofPath = Inl e"
  shows "Dir_copy (Suc n) rt s ofPath (Some toPath)
           = Some (Inr True, snd (fs_mkdir rt s toPath))"
proof -
  have created: "snd (Dir_create rt s toPath) = snd (fs_mkdir rt s toPath)"
    by (simp add: Dir_create_def split: prod.splits option.splits)
  have listed: "Dir_list (Suc 0) rt (snd (fs_mkdir rt s toPath)) ofPath False = Some (Inr [])"
    using assms(3) by simp
  show ?thesis
    using assms(1,2) by (simp add: created listed Let_def del: Dir_list.simps)
qed

theorem copy_of_unlistable_source_witness:
  "\<not> Dir_exists memory project ''out'' \<and>
   fs_mkdir memory project ''out''
     = (None, project\<lparr>nodes := nodes project @ [([''out''], Dir_node)]\<rparr>) \<and>
   fs_readdir memory (project\<lparr>nodes := nodes project @ [([''out''], Dir_node)]\<rparr>) ''missing''
     = Inl ENOENT \<and>
   Dir_copy (Suc 0) memory project ''missing'' (Some ''out'')
     = Some (Inr True, project\<lparr>nodes := nodes project @ [([''out''], Dir_node)]\<rparr>) \<and>
   fs_readdir memory (project\<lparr>nodes := nodes project @ [([''out''], Dir_node)]\<rparr>) ''out''
     = Inr []"
proof -
  have absent: "\<not> Dir_exists memory project ''out''" by code_simp
  have made: "fs_mkdir memory project ''out''
                = (None, project\<lparr>nodes := nodes project @ [([''out''], Dir_node)]\<rparr>)"
    by code_simp
  have unlistable:
    "fs_readdir memory (project\<lparr>nodes := nodes project @ [([''out''], Dir_node)]\<rparr>) ''missing''
       = Inl ENOENT"
    by code_simp
  have empty:
    "fs_readdir memory (project\<lparr>nodes := nodes project @ [([''out''], Dir_node)]\<rparr>) ''out''
       = Inr []"
    by code_simp
  have name: "''out'' \<noteq> []" by simp
  have unlistable': "fs_readdir memory (snd (fs_mkdir memory project ''out'')) ''missing''
                       = Inl ENOENT"
    using unlistable by (simp add: made)
  from copy_of_unlistable_source [OF name absent unlistable', of 0]
  have "Dir_copy (Suc 0) memory project ''missing'' (Some ''out'')
          = Some (Inr True, project\<lparr>nodes := nodes project @ [([''out''], Dir_node)]\<rparr>)"
    by (simp add: made)
  with absent made unlistable empty show ?thesis by blast
qed

text \<open>
  As the specification states it, with the destination always created, the property fails
  where the \<^verbatim>\<open>mkdir\<close> fails: \<^verbatim>\<open>nowhere/out\<close> has no parent
  directory, \<^verbatim>\<open>Dir.copy\<close> returns \<^verbatim>\<open>true\<close> and the destination is not there.
\<close>

theorem copy_of_missing_source_counterexample:
  "\<not> Dir_exists memory project ''missing'' \<and>
   \<not> Dir_exists memory project ''nowhere/out'' \<and>
   Dir_copy (Suc 0) memory project ''missing'' (Some ''nowhere/out'')
     = Some (Inr True, project) \<and>
   fs_stat_isDirectory memory project ''nowhere/out'' = Inl ENOENT"
  by code_simp

section \<open>Dir.move\<close>


























end
